theory Spec2Isabelle
  imports Complex_Main
begin

section \<open>Exceptions, errors and the environment\<close>

text \<open>
  An operation wrapped by the executors either returns a value or raises. Python's
  \<^verbatim>\<open>except Exception\<close> catches the instances of \<^verbatim>\<open>Exception\<close> and lets the other
  instances of \<^verbatim>\<open>BaseException\<close> (KeyboardInterrupt, SystemExit, CancelledError) pass,
  so a raised value records on which side of that line its class lies; the payload
  stands for the class and the arguments of the exception.
\<close>

datatype 'a exc = Exception 'a | BaseException 'a

fun is_Exception :: "'a exc \<Rightarrow> bool" where
  "is_Exception (Exception _) = True"
| "is_Exception (BaseException _) = False"

text \<open>\<^verbatim>\<open>str(e)\<close> of a caught exception, kept symbolic.\<close>

datatype 'a context_value = Str "'a exc"

text \<open>
  What a call of an executor can raise: \<^verbatim>\<open>RetryHandlerError\<close> (an \<^verbatim>\<open>AgentError\<close> with
  its message, severity and context dictionary; the id, timestamp and traceback that
  \<^verbatim>\<open>AgentError.__init__\<close> adds are left out), the \<^verbatim>\<open>RuntimeError\<close> of the failover
  decorator, the \<^verbatim>\<open>TypeError\<close> and \<^verbatim>\<open>KeyError\<close> that Python raises on
  \<^verbatim>\<open>float - None\<close> and on a missing dictionary key, and an exception of the wrapped
  operation or of a fallback that propagates as it is.
\<close>

datatype 'a error =
    RetryHandlerError string int "(string \<times> 'a context_value) list"
  | RuntimeError string
  | TypeError
  | KeyError string
  | Raised "'a exc"

fun err_message :: "'a error \<Rightarrow> string" where
  "err_message (RetryHandlerError m _ _) = m"
| "err_message (RuntimeError m) = m"
| "err_message _ = []"

fun err_context :: "'a error \<Rightarrow> (string \<times> 'a context_value) list" where
  "err_context (RetryHandlerError _ _ c) = c"
| "err_context _ = []"

text \<open>\<^verbatim>\<open>ErrorSeverity\<close> of \<^verbatim>\<open>core/error_handler.py\<close>.\<close>

definition WARNING :: int where "WARNING = 30"
definition ERROR :: int where "ERROR = 40"
definition CRITICAL :: int where "CRITICAL = 50"

text \<open>Python's \<^verbatim>\<open>str\<close> on an \<^verbatim>\<open>int\<close>, as the f-strings of the messages use it.\<close>

fun str_nat :: "nat \<Rightarrow> string" where
  "str_nat n = (if n < 10 then [''0123456789'' ! n]
                else str_nat (n div 10) @ [''0123456789'' ! (n mod 10)])"

declare str_nat.simps [simp del]

definition str_int :: "int \<Rightarrow> string" where
  "str_int i = (if i < 0 then CHR ''-'' # str_nat (nat (- i)) else str_nat (nat i))"

text \<open>The records that the two executors write with \<^verbatim>\<open>logging\<close>.\<close>

datatype 'a log_entry =
    Retry_attempt int "'a exc" real
  | Circuit_open_using_fallback string
  | Failure_in string "'a exc"
  | Circuit_breaker_opened string
  | Fallback_failed string "'a exc"

text \<open>
  The environment of a call: the clock that \<^verbatim>\<open>time.time()\<close> reads (seconds, a float in
  the source, a real number here), the values that successive calls of
  \<^verbatim>\<open>random.random()\<close> return, the log, and the call counter of a test double.
\<close>

record 'a world =
  clock :: real
  random_values :: "nat \<Rightarrow> real"
  random_index :: nat
  log :: "'a log_entry list"
  calls :: nat

text \<open>
  A wrapped operation with its arguments applied: it runs in the environment, may change
  it, and returns (\<open>Inr\<close>) or raises (\<open>Inl\<close>).
\<close>

type_synonym ('a, 'r) operation = "'a world \<Rightarrow> ('a exc + 'r) \<times> 'a world"

text \<open>A test double: it behaves as the given operation and counts its invocations.\<close>

definition counted :: "('a, 'r) operation \<Rightarrow> ('a, 'r) operation" where
  "counted f w = (case f w of (res, w') \<Rightarrow> (res, w'\<lparr>calls := Suc (calls w)\<rparr>))"

text \<open>\<^verbatim>\<open>random.uniform(a, b)\<close> is \<^verbatim>\<open>a + (b - a) * random()\<close>.\<close>

definition uniform :: "real \<Rightarrow> real \<Rightarrow> 'a world \<Rightarrow> real \<times> 'a world" where
  "uniform a b w =
     (a + (b - a) * random_values w (random_index w),
      w\<lparr>random_index := Suc (random_index w)\<rparr>)"

text \<open>\<^verbatim>\<open>asyncio.sleep(delay)\<close>: the clock advances by the delay, if it is positive.\<close>

definition sleep :: "real \<Rightarrow> 'a world \<Rightarrow> 'a world" where
  "sleep d w = w\<lparr>clock := clock w + max 0 d\<rparr>"

definition logging :: "'a log_entry \<Rightarrow> 'a world \<Rightarrow> 'a world" where
  "logging entry w = w\<lparr>log := log w @ [entry]\<rparr>"

section \<open>api/retry\_handler.py\<close>

datatype RetryStrategy = CONSTANT | LINEAR | EXPONENTIAL | FIBONACCI

datatype CircuitState = CLOSED | OPEN | HALF_OPEN

text \<open>
  A \<^verbatim>\<open>RetryHandler\<close> instance; the private attribute \<^verbatim>\<open>self._x\<close> is the field
  \<open>rh_x\<close>. \<open>rh_retry_on\<close> is the test \<^verbatim>\<open>isinstance(e, self._retry_on)\<close> that the
  \<^verbatim>\<open>except\<close> clause makes.
\<close>

record 'a RetryHandler =
  rh_max_retries :: int
  rh_base_delay :: real
  rh_max_delay :: real
  rh_backoff_strategy :: RetryStrategy
  rh_jitter :: real
  rh_circuit_failure_threshold :: int
  rh_circuit_reset_timeout :: real
  rh_retry_on :: "'a exc \<Rightarrow> bool"
  rh_failure_count :: int
  rh_circuit_state :: CircuitState
  rh_last_failure_time :: "real option"

text \<open>\<^verbatim>\<open>RetryHandler.__init__\<close>; \<^verbatim>\<open>retry_on or Exception\<close> is the default.\<close>

definition RetryHandler_init ::
  "int \<Rightarrow> real \<Rightarrow> real \<Rightarrow> RetryStrategy \<Rightarrow> real \<Rightarrow> int \<Rightarrow> real \<Rightarrow> ('a exc \<Rightarrow> bool) option
   \<Rightarrow> 'a RetryHandler" where
  "RetryHandler_init max_retries base_delay max_delay backoff_strategy jitter
     circuit_failure_threshold circuit_reset_timeout retry_on =
     \<lparr>rh_max_retries = max_retries,
      rh_base_delay = base_delay,
      rh_max_delay = max_delay,
      rh_backoff_strategy = backoff_strategy,
      rh_jitter = jitter,
      rh_circuit_failure_threshold = circuit_failure_threshold,
      rh_circuit_reset_timeout = circuit_reset_timeout,
      rh_retry_on = (case retry_on of None \<Rightarrow> is_Exception | Some p \<Rightarrow> p),
      rh_failure_count = 0,
      rh_circuit_state = CLOSED,
      rh_last_failure_time = None\<rparr>"

text \<open>
  \<^verbatim>\<open>RetryHandler._calculate_delay\<close>. \<^verbatim>\<open>2 ** (attempt - 1)\<close> and \<^verbatim>\<open>1.618 ** attempt\<close>
  are powers with an integer exponent; the floats of the source are real numbers here.
\<close>

definition calculate_delay :: "'a RetryHandler \<Rightarrow> int \<Rightarrow> 'a world \<Rightarrow> real \<times> 'a world" where
  "calculate_delay h attempt w =
     (let base_delay = rh_base_delay h;
          delay = (case rh_backoff_strategy h of
                     CONSTANT \<Rightarrow> base_delay
                   | LINEAR \<Rightarrow> base_delay * of_int attempt
                   | EXPONENTIAL \<Rightarrow> base_delay * (2 powi (attempt - 1))
                   | FIBONACCI \<Rightarrow> base_delay * ((1618 / 1000) powi attempt));
          delay = min delay (rh_max_delay h);
          jitter_amount = delay * rh_jitter h;
          (u, w') = uniform (- jitter_amount) jitter_amount w
      in (max 0 (delay + u), w'))"

text \<open>
  The end of the \<^verbatim>\<open>except\<close> block of \<^verbatim>\<open>RetryHandler.retry\<close>, for a failure that is
  retried: compute the delay, log the attempt, sleep.
\<close>

definition backoff_wait :: "'a RetryHandler \<Rightarrow> int \<Rightarrow> 'a exc \<Rightarrow> 'a world \<Rightarrow> 'a world" where
  "backoff_wait h attempt e w =
     (case calculate_delay h attempt w of
        (delay, w') \<Rightarrow> sleep delay (logging (Retry_attempt attempt e delay) w'))"

text \<open>
  The loop \<^verbatim>\<open>for attempt in range(1, self._max_retries + 1)\<close> of
  \<^verbatim>\<open>RetryHandler.retry\<close>, over the attempts that are left. Falling off the end of the
  loop is Python's implicit \<^verbatim>\<open>return None\<close>, the result \<open>Inr None\<close>.
\<close>

fun retry_loop ::
  "'a RetryHandler \<Rightarrow> ('a, 'r) operation \<Rightarrow> int list \<Rightarrow> 'a world
   \<Rightarrow> ('a error + 'r option) \<times> 'a RetryHandler \<times> 'a world" where
  "retry_loop h func [] w = (Inr None, h, w)"
| "retry_loop h func (attempt # rest) w =
     (case func w of
        (Inr result, w1) \<Rightarrow>
          (Inr (Some result),
           h\<lparr>rh_circuit_state :=
                (if rh_circuit_state h = HALF_OPEN then CLOSED else rh_circuit_state h),
              rh_failure_count := 0\<rparr>,
           w1)
      | (Inl e, w1) \<Rightarrow>
          if rh_retry_on h e then
            let h1 = h\<lparr>rh_failure_count := rh_failure_count h + 1\<rparr> in
            if rh_failure_count h1 \<ge> rh_circuit_failure_threshold h1 then
              (Inl (RetryHandlerError
                      (''Circuit breaker opened after '' @ str_int (rh_failure_count h1)
                         @ '' consecutive failures'')
                      CRITICAL [(''last_error'', Str e)]),
               h1\<lparr>rh_circuit_state := OPEN, rh_last_failure_time := Some (clock w1)\<rparr>,
               w1)
            else if attempt = rh_max_retries h1 then
              (Inl (RetryHandlerError
                      (''Failed after '' @ str_int (rh_max_retries h1) @ '' attempts'')
                      ERROR [(''last_error'', Str e)]),
               h1, w1)
            else retry_loop h1 func rest (backoff_wait h1 attempt e w1)
          else (Inl (Raised e), h, w1))"

text \<open>\<^verbatim>\<open>RetryHandler.retry\<close>: the circuit breaker check, then the loop.\<close>

definition retry ::
  "'a RetryHandler \<Rightarrow> ('a, 'r) operation \<Rightarrow> 'a world
   \<Rightarrow> ('a error + 'r option) \<times> 'a RetryHandler \<times> 'a world" where
  "retry h func w =
     (if rh_circuit_state h = OPEN then
        (case rh_last_failure_time h of
           None \<Rightarrow> (Inl TypeError, h, w)
         | Some t \<Rightarrow>
             if clock w - t \<ge> rh_circuit_reset_timeout h then
               retry_loop (h\<lparr>rh_circuit_state := HALF_OPEN\<rparr>) func [1..rh_max_retries h] w
             else
               (Inl (RetryHandlerError ''Circuit is open. Requests are currently blocked.''
                       WARNING []),
                h, w))
      else retry_loop h func [1..rh_max_retries h] w)"

text \<open>
  The handler after a sequence of calls of \<^verbatim>\<open>retry\<close>, each with its operation and the
  environment it is made in: the states a handler can reach.
\<close>

fun retry_calls ::
  "'a RetryHandler \<Rightarrow> (('a, 'r) operation \<times> 'a world) list \<Rightarrow> 'a RetryHandler" where
  "retry_calls h [] = h"
| "retry_calls h ((func, w) # cs) = retry_calls (fst (snd (retry h func w))) cs"

section \<open>core/failover\_strategy.py\<close>

text \<open>\<^verbatim>\<open>FailoverStrategy.CircuitBreakerState\<close>: 'closed', 'open' and 'half-open'.\<close>

datatype CircuitBreakerState = CB_CLOSED | CB_OPEN | CB_HALF_OPEN

text \<open>A \<^verbatim>\<open>FailoverStrategy\<close> instance, with its four dictionaries keyed by function name.\<close>

record ('a, 'r) FailoverStrategy =
  max_failures :: int
  reset_timeout :: real
  backoff_strategy :: string
  failures :: "string \<rightharpoonup> int"
  last_failure_time :: "string \<rightharpoonup> real"
  circuit_state :: "string \<rightharpoonup> CircuitBreakerState"
  fallback_handlers :: "string \<rightharpoonup> ('a, 'r) operation"

definition FailoverStrategy_init :: "int \<Rightarrow> real \<Rightarrow> string \<Rightarrow> ('a, 'r) FailoverStrategy" where
  "FailoverStrategy_init mf rt bs =
     \<lparr>max_failures = mf, reset_timeout = rt, backoff_strategy = bs,
      failures = Map.empty, last_failure_time = Map.empty, circuit_state = Map.empty,
      fallback_handlers = Map.empty\<rparr>"

text \<open>\<^verbatim>\<open>FailoverStrategy._calculate_backoff\<close> (the decorator never calls it).\<close>

definition calculate_backoff ::
  "('a, 'r) FailoverStrategy \<Rightarrow> int \<Rightarrow> 'a world \<Rightarrow> real \<times> 'a world" where
  "calculate_backoff s attempt w =
     (if backoff_strategy s = ''exponential'' then
        (let base_delay = min (reset_timeout s) (2 powi attempt);
             (jitter, w') = uniform 0 ((1 / 10) * base_delay) w
         in (base_delay + jitter, w'))
      else if backoff_strategy s = ''linear'' then
        (min (reset_timeout s) (of_int (attempt * 5)), w)
      else (reset_timeout s, w))"

definition register_fallback ::
  "('a, 'r) FailoverStrategy \<Rightarrow> string \<Rightarrow> ('a, 'r) operation \<Rightarrow> ('a, 'r) FailoverStrategy" where
  "register_fallback s func_name fallback_handler =
     s\<lparr>fallback_handlers := (fallback_handlers s)(func_name \<mapsto> fallback_handler)\<rparr>"

text \<open>
  The \<^verbatim>\<open>wrapper\<close> that \<^verbatim>\<open>FailoverStrategy.decorator\<close> returns for \<^verbatim>\<open>func\<close>, block by
  block; \<open>key\<close> is \<^verbatim>\<open>func.__name__\<close>. First \<^verbatim>\<open>if key not in self.circuit_state\<close>.
\<close>

definition initialize_state :: "('a, 'r) FailoverStrategy \<Rightarrow> string \<Rightarrow> ('a, 'r) FailoverStrategy" where
  "initialize_state s key =
     (if circuit_state s key = None
      then s\<lparr>circuit_state := (circuit_state s)(key \<mapsto> CB_CLOSED),
             failures := (failures s)(key \<mapsto> 0)\<rparr>
      else s)"

text \<open>
  The two tests on the circuit: it is open and
  \<^verbatim>\<open>current_time - self.last_failure_time.get(key, 0) < self.reset_timeout\<close>.
\<close>

definition circuit_blocked :: "('a, 'r) FailoverStrategy \<Rightarrow> string \<Rightarrow> real \<Rightarrow> bool" where
  "circuit_blocked s key current_time \<longleftrightarrow>
     circuit_state s key = Some CB_OPEN
     \<and> current_time - (case last_failure_time s key of None \<Rightarrow> 0 | Some t \<Rightarrow> t)
         < reset_timeout s"

text \<open>The circuit is still open: the fallback if there is one, else \<^verbatim>\<open>RuntimeError\<close>.\<close>

definition circuit_still_open ::
  "('a, 'r) FailoverStrategy \<Rightarrow> string \<Rightarrow> 'a world
   \<Rightarrow> ('a error + 'r) \<times> ('a, 'r) FailoverStrategy \<times> 'a world" where
  "circuit_still_open s key w =
     (case fallback_handlers s key of
        Some fallback \<Rightarrow>
          (case fallback (logging (Circuit_open_using_fallback key) w) of
             (Inr r, w1) \<Rightarrow> (Inr r, s, w1)
           | (Inl fe, w1) \<Rightarrow> (Inl (Raised fe), s, w1))
      | None \<Rightarrow> (Inl (RuntimeError (''Circuit breaker open for '' @ key)), s, w))"

text \<open>An open circuit whose timeout has passed moves to half-open.\<close>

definition move_to_half_open :: "('a, 'r) FailoverStrategy \<Rightarrow> string \<Rightarrow> ('a, 'r) FailoverStrategy" where
  "move_to_half_open s key =
     (if circuit_state s key = Some CB_OPEN
      then s\<lparr>circuit_state := (circuit_state s)(key \<mapsto> CB_HALF_OPEN)\<rparr>
      else s)"

text \<open>After \<^verbatim>\<open>func\<close> returned: the \<^verbatim>\<open>try\<close> block after the call.\<close>

definition on_success :: "('a, 'r) FailoverStrategy \<Rightarrow> string \<Rightarrow> ('a, 'r) FailoverStrategy" where
  "on_success s key =
     s\<lparr>circuit_state :=
         (if circuit_state s key = Some CB_HALF_OPEN
          then (circuit_state s)(key \<mapsto> CB_CLOSED) else circuit_state s),
       failures := (failures s)(key \<mapsto> 0)\<rparr>"

text \<open>
  The handler \<^verbatim>\<open>except Exception as e\<close>, in two parts: the bookkeeping of the failure
  (\<^verbatim>\<open>self.failures[key] += 1\<close> raises \<^verbatim>\<open>KeyError\<close> without an entry), then the fallback.
  The bare \<^verbatim>\<open>raise\<close> that ends the handler re-raises the exception of \<^verbatim>\<open>func\<close>, also
  after a fallback failed with an \<^verbatim>\<open>Exception\<close>, which is only logged.
\<close>

definition track_failure ::
  "('a, 'r) FailoverStrategy \<Rightarrow> string \<Rightarrow> real \<Rightarrow> int \<Rightarrow> ('a, 'r) FailoverStrategy" where
  "track_failure s key current_time n =
     (let s3 = s\<lparr>failures := (failures s)(key \<mapsto> n + 1),
                  last_failure_time := (last_failure_time s)(key \<mapsto> current_time)\<rparr>
      in if n + 1 \<ge> max_failures s3
         then s3\<lparr>circuit_state := (circuit_state s3)(key \<mapsto> CB_OPEN)\<rparr>
         else s3)"

definition failure_log :: "('a, 'r) FailoverStrategy \<Rightarrow> string \<Rightarrow> int \<Rightarrow> 'a exc \<Rightarrow> 'a world \<Rightarrow> 'a world" where
  "failure_log s key n e w =
     (let w2 = logging (Failure_in key e) w
      in if n + 1 \<ge> max_failures s then logging (Circuit_breaker_opened key) w2 else w2)"

definition attempt_fallback ::
  "('a, 'r) FailoverStrategy \<Rightarrow> string \<Rightarrow> 'a exc \<Rightarrow> 'a world
   \<Rightarrow> ('a error + 'r) \<times> ('a, 'r) FailoverStrategy \<times> 'a world" where
  "attempt_fallback s key e w =
     (case fallback_handlers s key of
        Some fallback \<Rightarrow>
          (case fallback w of
             (Inr r, w') \<Rightarrow> (Inr r, s, w')
           | (Inl fe, w') \<Rightarrow>
               if is_Exception fe
               then (Inl (Raised e), s, logging (Fallback_failed key fe) w')
               else (Inl (Raised fe), s, w'))
      | None \<Rightarrow> (Inl (Raised e), s, w))"

definition on_failure ::
  "('a, 'r) FailoverStrategy \<Rightarrow> string \<Rightarrow> real \<Rightarrow> 'a exc \<Rightarrow> 'a world
   \<Rightarrow> ('a error + 'r) \<times> ('a, 'r) FailoverStrategy \<times> 'a world" where
  "on_failure s key current_time e w =
     (case failures s key of
        None \<Rightarrow> (Inl (KeyError key), s, w)
      | Some n \<Rightarrow>
          attempt_fallback (track_failure s key current_time n) key e (failure_log s key n e w))"

text \<open>The wrapper itself; \<^verbatim>\<open>time.time()\<close> is read once, before the circuit is tested.\<close>

definition wrapper ::
  "('a, 'r) FailoverStrategy \<Rightarrow> string \<Rightarrow> ('a, 'r) operation \<Rightarrow> 'a world
   \<Rightarrow> ('a error + 'r) \<times> ('a, 'r) FailoverStrategy \<times> 'a world" where
  "wrapper s key func w =
     (let s1 = initialize_state s key;
          current_time = clock w
      in
      if circuit_blocked s1 key current_time then circuit_still_open s1 key w
      else
        let s2 = move_to_half_open s1 key
        in
        (case func w of
           (Inr result, w1) \<Rightarrow> (Inr result, on_success s2 key, w1)
         | (Inl e, w1) \<Rightarrow>
             if is_Exception e then on_failure s2 key current_time e w1
             else (Inl (Raised e), s2, w1)))"

text \<open>\<^verbatim>\<open>FailoverStrategy.reset_circuit\<close>; \<^verbatim>\<open>if key:\<close> is false for None and for ''.\<close>

definition reset_circuit ::
  "('a, 'r) FailoverStrategy \<Rightarrow> string option \<Rightarrow> ('a, 'r) FailoverStrategy" where
  "reset_circuit s key =
     (case key of
        Some k \<Rightarrow>
          if k \<noteq> [] then
            s\<lparr>circuit_state := (circuit_state s)(k \<mapsto> CB_CLOSED),
              failures := (failures s)(k \<mapsto> 0)\<rparr>
          else s\<lparr>circuit_state := Map.empty, failures := Map.empty,
                 last_failure_time := Map.empty\<rparr>
      | None \<Rightarrow> s\<lparr>circuit_state := Map.empty, failures := Map.empty,
                    last_failure_time := Map.empty\<rparr>)"

text \<open>\<^verbatim>\<open>FailoverStrategy.get_circuit_status\<close>: the dictionary it returns.\<close>

record circuit_status =
  status_state :: CircuitBreakerState
  status_failures :: int
  status_last_failure_time :: "real option"

definition get_circuit_status :: "('a, 'r) FailoverStrategy \<Rightarrow> string \<Rightarrow> circuit_status" where
  "get_circuit_status s key =
     \<lparr>status_state = (case circuit_state s key of None \<Rightarrow> CB_CLOSED | Some st \<Rightarrow> st),
      status_failures = (case failures s key of None \<Rightarrow> 0 | Some n \<Rightarrow> n),
      status_last_failure_time = last_failure_time s key\<rparr>"

text \<open>
  What a client can do with a \<^verbatim>\<open>FailoverStrategy\<close>: call a decorated function (in some
  environment), register a fallback, reset circuits. \<open>failover_run\<close> is the instance
  after a sequence of these.
\<close>

datatype ('a, 'r) failover_event =
    Call string "('a, 'r) operation" "'a world"
  | Register_fallback string "('a, 'r) operation"
  | Reset_circuit "string option"

fun failover_step ::
  "('a, 'r) FailoverStrategy \<Rightarrow> ('a, 'r) failover_event \<Rightarrow> ('a, 'r) FailoverStrategy" where
  "failover_step s (Call key func w) = fst (snd (wrapper s key func w))"
| "failover_step s (Register_fallback name fallback) = register_fallback s name fallback"
| "failover_step s (Reset_circuit key) = reset_circuit s key"

fun failover_run ::
  "('a, 'r) FailoverStrategy \<Rightarrow> ('a, 'r) failover_event list \<Rightarrow> ('a, 'r) FailoverStrategy" where
  "failover_run s [] = s"
| "failover_run s (ev # evs) = failover_run (failover_step s ev) evs"

section \<open>Consistency of the circuits\<close>

text \<open>
  What every reachable handler satisfies: a circuit that is not CLOSED has counted at
  least the threshold, and an OPEN circuit has a time of last failure.
\<close>

definition circuit_consistent :: "'a RetryHandler \<Rightarrow> bool" where
  "circuit_consistent h \<longleftrightarrow>
     (rh_circuit_state h \<noteq> CLOSED \<longrightarrow> rh_failure_count h \<ge> rh_circuit_failure_threshold h)
     \<and> (rh_circuit_state h = OPEN \<longrightarrow> rh_last_failure_time h \<noteq> None)"

text \<open>
  The same for every key of a \<^verbatim>\<open>FailoverStrategy\<close>; and the keys with a circuit state
  are the keys with a failure count.
\<close>

definition failover_consistent :: "('a, 'r) FailoverStrategy \<Rightarrow> bool" where
  "failover_consistent s \<longleftrightarrow>
     (\<forall>k. circuit_state s k = Some CB_OPEN \<longrightarrow>
          last_failure_time s k \<noteq> None \<and> (\<exists>n. failures s k = Some n \<and> n \<ge> max_failures s))
     \<and> (\<forall>k. circuit_state s k = None \<longleftrightarrow> failures s k = None)"

section \<open>Test doubles\<close>

text \<open>
  An environment at a given time, an operation that always raises an \<^verbatim>\<open>Exception\<close>, one
  that always returns, and a handler and a strategy whose circuit one failure has opened.
\<close>

definition test_world :: "real \<Rightarrow> unit world" where
  "test_world t = \<lparr>clock = t, random_values = (\<lambda>_. 0), random_index = 0, log = [], calls = 0\<rparr>"

definition failing :: "(unit, nat) operation" where
  "failing = counted (\<lambda>w. (Inl (Exception ()), w))"

definition succeeding :: "(unit, nat) operation" where
  "succeeding = counted (\<lambda>w. (Inr 7, w))"

definition tripped_handler :: "unit RetryHandler" where
  "tripped_handler =
     fst (snd (retry (RetryHandler_init 1 1 60 CONSTANT 0 1 30 None) failing (test_world 0)))"

definition tripped_failover :: "(unit, nat) FailoverStrategy" where
  "tripped_failover =
     failover_run (FailoverStrategy_init 1 60 ''exponential'') [Call ''f'' failing (test_world 0)]"

text \<open>An operation that raises whenever it is invoked, always an exception that counts.\<close>

definition always_raises :: "('a exc \<Rightarrow> bool) \<Rightarrow> ('a, 'r) operation \<Rightarrow> bool" where
  "always_raises retryable func \<longleftrightarrow> (\<forall>w. \<exists>e. fst (func w) = Inl e \<and> retryable e)"

text \<open>A handler with a constant delay of one second and no jitter.\<close>

definition patient_handler :: "int \<Rightarrow> int \<Rightarrow> unit RetryHandler" where
  "patient_handler max_retries threshold =
     RetryHandler_init max_retries 1 60 CONSTANT 0 threshold 30 None"

text \<open>
  How a call of \<^verbatim>\<open>retry\<close> that ran its attempts can end in an error: the circuit breaker
  error (severity CRITICAL) with the circuit opened at its threshold, the error of the
  last attempt (severity ERROR) after the given number of invocations, or an exception
  that is not retried.
\<close>

definition surfaced ::
  "'a RetryHandler \<Rightarrow> 'a world \<Rightarrow> 'a error \<Rightarrow> 'a RetryHandler \<Rightarrow> 'a world \<Rightarrow> int \<Rightarrow> bool" where
  "surfaced h w err h' w' n \<longleftrightarrow>
     (case err of
        RetryHandlerError m sev ctx \<Rightarrow>
          (sev = CRITICAL \<and> rh_circuit_state h' = OPEN
             \<and> rh_failure_count h' \<ge> rh_circuit_failure_threshold h')
          \<or> (sev = ERROR \<and> int (calls w') = int (calls w) + n)
      | Raised e \<Rightarrow> \<not> rh_retry_on h e
      | _ \<Rightarrow> False)"

text \<open>An operation that raises an exception outside \<^verbatim>\<open>Exception\<close>, as an interrupt does.\<close>

definition interrupted :: "(unit, nat) operation" where
  "interrupted = counted (\<lambda>w. (Inl (BaseException ()), w))"

text \<open>
  An operation that raises the exception \<^verbatim>\<open>primary\<close>, a fallback that raises the exception
  \<^verbatim>\<open>fallback\<close> and counts its invocations, and a strategy with this fallback for \<^verbatim>\<open>f\<close>.
\<close>

definition quiet_world :: "string world" where
  "quiet_world = \<lparr>clock = 0, random_values = (\<lambda>_. 0), random_index = 0, log = [], calls = 0\<rparr>"

definition primary_down :: "(string, nat) operation" where
  "primary_down = (\<lambda>w. (Inl (Exception ''primary''), w))"

definition broken_fallback :: "(string, nat) operation" where
  "broken_fallback = counted (\<lambda>w. (Inl (Exception ''fallback''), w))"

definition guarded :: "(string, nat) FailoverStrategy" where
  "guarded = failover_run (FailoverStrategy_init 3 60 ''exponential'')
               [Register_fallback ''f'' broken_fallback]"

text \<open>
  The delay of the Backoff Calculator of the spec (section 4.1) before the jitter, in the
  words of the spec: the formula of the strategy, then the clamp to \<^verbatim>\<open>max_delay\<close>.
\<close>

definition spec_delay :: "RetryStrategy \<Rightarrow> real \<Rightarrow> real \<Rightarrow> int \<Rightarrow> real" where
  "spec_delay strategy base_delay max_delay attempt =
     min (case strategy of
            CONSTANT \<Rightarrow> base_delay
          | LINEAR \<Rightarrow> base_delay * of_int attempt
          | EXPONENTIAL \<Rightarrow> base_delay * 2 ^ nat (attempt - 1)
          | FIBONACCI \<Rightarrow> base_delay * (1618 / 1000) ^ nat attempt)
         max_delay"

text \<open>
  The whole delay of the Backoff Calculator of the spec, in the words of the spec: the
  clamped delay, plus the jitter, floored at 0. The jitter is the point of the interval
  from minus to plus the jitter fraction times the clamped delay that a random number
  \<open>r\<close> of [0, 1) picks.
\<close>

definition spec_backoff :: "RetryStrategy \<Rightarrow> real \<Rightarrow> real \<Rightarrow> real \<Rightarrow> int \<Rightarrow> real \<Rightarrow> real" where
  "spec_backoff strategy base_delay max_delay jitter_fraction attempt r =
     (let delay = spec_delay strategy base_delay max_delay attempt;
          jitter = - (jitter_fraction * delay) + 2 * (jitter_fraction * delay) * r
      in max 0 (delay + jitter))"

section \<open>Lemmas on the retry handler\<close>

lemma str_int_examples: "str_int 1 = ''1''" "str_int 2 = ''2''" "str_int 3 = ''3''"
  by (simp_all add: str_int_def str_nat.simps)

lemma calls_backoff_wait [simp]: "calls (backoff_wait h attempt e w) = calls w"
  by (simp add: backoff_wait_def calculate_delay_def uniform_def sleep_def logging_def Let_def
           split: prod.splits)

lemma counted_calls: "calls (snd (counted f w)) = Suc (calls w)"
  by (simp add: counted_def split: prod.splits)

lemma counted_fst: "fst (counted f w) = fst (f w)"
  by (simp add: counted_def split: prod.splits)

lemma retry_loop_threshold:
  "rh_circuit_failure_threshold (fst (snd (retry_loop h func as w))) = rh_circuit_failure_threshold h
   \<and> rh_max_retries (fst (snd (retry_loop h func as w))) = rh_max_retries h
   \<and> rh_circuit_reset_timeout (fst (snd (retry_loop h func as w))) = rh_circuit_reset_timeout h
   \<and> rh_retry_on (fst (snd (retry_loop h func as w))) = rh_retry_on h"
proof (induction as arbitrary: h w)
  case Nil
  show ?case by simp
next
  case (Cons a as)
  show ?case
  proof (cases "func w")
    case (Pair res w1)
    show ?thesis
    proof (cases res)
      case (Inr r)
      with Pair show ?thesis by simp
    next
      case (Inl e)
      with Pair Cons.IH [of "h\<lparr>rh_failure_count := rh_failure_count h + 1\<rparr>" "backoff_wait (h\<lparr>rh_failure_count := rh_failure_count h + 1\<rparr>) a e w1"]
      show ?thesis by (simp add: Let_def)
    qed
  qed
qed

lemma retry_loop_consistent:
  "circuit_consistent h \<Longrightarrow> rh_circuit_state h \<noteq> OPEN \<Longrightarrow> circuit_consistent (fst (snd (retry_loop h func as w)))"
proof (induction as arbitrary: h w)
  case Nil
  then show ?case by simp
next
  case (Cons a as)
  let ?h1 = "h\<lparr>rh_failure_count := rh_failure_count h + 1\<rparr>"
  show ?case
  proof (cases "func w")
    case (Pair res w1)
    show ?thesis
    proof (cases res)
      case (Inr r)
      with Pair Cons.prems show ?thesis
        by (cases "rh_circuit_state h") (simp_all add: circuit_consistent_def)
    next
      case (Inl e)
      have h1: "circuit_consistent ?h1" "rh_circuit_state ?h1 \<noteq> OPEN"
        using Cons.prems by (auto simp: circuit_consistent_def)
      from Cons.IH [OF h1, of "backoff_wait ?h1 a e w1"] Pair Inl Cons.prems
      show ?thesis by (auto simp: Let_def circuit_consistent_def)
    qed
  qed
qed

lemma retry_consistent:
  "circuit_consistent h \<Longrightarrow> circuit_consistent (fst (snd (retry h func w)))"
proof -
  assume c: "circuit_consistent h"
  show ?thesis
  proof (cases "rh_circuit_state h = OPEN")
    case False
    with c show ?thesis by (simp add: retry_def retry_loop_consistent)
  next
    case True
    with c obtain t where t: "rh_last_failure_time h = Some t"
      by (auto simp: circuit_consistent_def)
    have "circuit_consistent (h\<lparr>rh_circuit_state := HALF_OPEN\<rparr>)"
      using c True by (simp add: circuit_consistent_def)
    then have "circuit_consistent
                 (fst (snd (retry_loop (h\<lparr>rh_circuit_state := HALF_OPEN\<rparr>) func
                              [1..rh_max_retries h] w)))"
      by (rule retry_loop_consistent) simp
    with c True t show ?thesis by (simp add: retry_def)
  qed
qed

lemma retry_threshold:
  "rh_circuit_failure_threshold (fst (snd (retry h func w))) = rh_circuit_failure_threshold h"
  by (simp add: retry_def retry_loop_threshold split: option.splits)

lemma retry_calls_consistent:
  "circuit_consistent h \<Longrightarrow> circuit_consistent (retry_calls h cs)"
  by (induction h cs rule: retry_calls.induct) (auto simp: retry_consistent)

lemma retry_calls_threshold:
  "rh_circuit_failure_threshold (retry_calls h cs) = rh_circuit_failure_threshold h"
  by (induction h cs rule: retry_calls.induct) (auto simp: retry_threshold)

lemma init_consistent:
  "circuit_consistent (RetryHandler_init mr bd md bs j ft rt ro)"
  by (simp add: circuit_consistent_def RetryHandler_init_def)

lemma retry_open_blocked:
  assumes "rh_circuit_state h = OPEN" and "rh_last_failure_time h = Some t"
    and "clock w - t < rh_circuit_reset_timeout h"
  shows "retry h func w =
           (Inl (RetryHandlerError ''Circuit is open. Requests are currently blocked.'' WARNING []), h, w)"
  using assms by (simp add: retry_def)

lemma retry_calls_open_blocked:
  assumes "rh_circuit_state h = OPEN" and "rh_last_failure_time h = Some t"
    and "\<forall>(f, w) \<in> set cs. clock w - t < rh_circuit_reset_timeout h"
  shows "retry_calls h cs = h"
  using assms
proof (induction cs)
  case Nil
  then show ?case by simp
next
  case (Cons c cs)
  obtain f w where c: "c = (f, w)" by (cases c)
  with Cons.prems have "clock w - t < rh_circuit_reset_timeout h" by simp
  with Cons.prems have "retry h f w =
      (Inl (RetryHandlerError ''Circuit is open. Requests are currently blocked.'' WARNING []), h, w)"
    by (simp add: retry_open_blocked)
  with Cons c show ?case by simp
qed

lemma upto_from_1: "1 \<le> m \<Longrightarrow> [1..m] = 1 # [2..m]"
  by (simp add: upto_rec1)

lemma retry_timeout_passed:
  assumes "rh_circuit_state h = OPEN" and "rh_last_failure_time h = Some t"
    and "clock w - t \<ge> rh_circuit_reset_timeout h"
  shows "retry h func w =
           retry_loop (h\<lparr>rh_circuit_state := HALF_OPEN\<rparr>) func [1..rh_max_retries h] w"
  using assms by (simp add: retry_def)

lemma retry_loop_success:
  assumes "func w = (Inr r, w1)"
  shows "retry_loop h func (a # rest) w =
           (Inr (Some r),
            h\<lparr>rh_circuit_state := (if rh_circuit_state h = HALF_OPEN then CLOSED else rh_circuit_state h),
              rh_failure_count := 0\<rparr>, w1)"
  using assms by simp

lemma retry_loop_trip:
  assumes "func w = (Inl e, w1)" and "rh_retry_on h e"
    and "rh_failure_count h + 1 \<ge> rh_circuit_failure_threshold h"
  shows "retry_loop h func (a # rest) w =
           (Inl (RetryHandlerError
                   (''Circuit breaker opened after '' @ str_int (rh_failure_count h + 1)
                      @ '' consecutive failures'')
                   CRITICAL [(''last_error'', Str e)]),
            h\<lparr>rh_failure_count := rh_failure_count h + 1, rh_circuit_state := OPEN,
              rh_last_failure_time := Some (clock w1)\<rparr>, w1)"
  using assms by (simp add: Let_def)

lemma retry_loop_not_retryable:
  assumes "func w = (Inl e, w1)" and "\<not> rh_retry_on h e"
  shows "retry_loop h func (a # rest) w = (Inl (Raised e), h, w1)"
  using assms by simp

lemma probe_calls_once:
  assumes "rh_failure_count h + 1 \<ge> rh_circuit_failure_threshold h"
  shows "calls (snd (snd (retry_loop h (counted f) (a # rest) w))) = Suc (calls w)"
proof (cases "f w")
  case (Pair res w1)
  then have c: "counted f w = (res, w1\<lparr>calls := Suc (calls w)\<rparr>)"
    by (simp add: counted_def)
  show ?thesis
  proof (cases res)
    case (Inr r)
    with c show ?thesis by simp
  next
    case (Inl e)
    with c assms show ?thesis by (simp add: Let_def)
  qed
qed

lemma always_raisesE:
  assumes "always_raises p func"
  obtains e w1 where "func w = (Inl e, w1)" and "p e"
proof -
  from assms obtain e where "fst (func w) = Inl e" "p e"
    unfolding always_raises_def by blast
  then have "func w = (Inl e, snd (func w))" by (simp add: prod_eq_iff)
  with \<open>p e\<close> that show thesis by blast
qed

lemma retry_loop_retried:
  assumes "func w = (Inl e, w1)" and "rh_retry_on h e"
    and "rh_failure_count h + 1 < rh_circuit_failure_threshold h"
    and "rh_max_retries h \<noteq> a"
  shows "retry_loop h func (a # rest) w =
           retry_loop (h\<lparr>rh_failure_count := rh_failure_count h + 1\<rparr>) func rest
             (backoff_wait (h\<lparr>rh_failure_count := rh_failure_count h + 1\<rparr>) a e w1)"
  using assms by (simp add: Let_def)

lemma retry_loop_exhausted:
  assumes "func w = (Inl e, w1)" and "rh_retry_on h e"
    and "rh_failure_count h + 1 < rh_circuit_failure_threshold h"
    and "rh_max_retries h = a"
  shows "retry_loop h func (a # rest) w =
           (Inl (RetryHandlerError (''Failed after '' @ str_int (rh_max_retries h) @ '' attempts'')
                   ERROR [(''last_error'', Str e)]),
            h\<lparr>rh_failure_count := rh_failure_count h + 1\<rparr>, w1)"
  using assms by (simp add: Let_def)

lemma retry_not_open:
  "rh_circuit_state h \<noteq> OPEN \<Longrightarrow> retry h func w = retry_loop h func [1..rh_max_retries h] w"
  by (simp add: retry_def)

lemma upto_from_1_3: "3 \<le> m \<Longrightarrow> [1..m] = 1 # 2 # 3 # [4..m]"
  by (simp add: upto_rec1)

lemma counted_calls_eq: "counted f w = (res, w1) \<Longrightarrow> calls w1 = Suc (calls w)"
  by (auto simp: counted_def split: prod.splits)

lemma trip_within_one_call:
  fixes h0 :: "'a RetryHandler"
  assumes h0: "h0 = RetryHandler_init mr bd md bs j 3 rt ro" and mr: "3 \<le> mr"
    and raises: "always_raises (rh_retry_on h0) func"
  shows "\<exists>e1 w1 e2 w2 e3 w3.
           func w = (Inl e1, w1)
           \<and> func (backoff_wait (h0\<lparr>rh_failure_count := 1\<rparr>) 1 e1 w1) = (Inl e2, w2)
           \<and> func (backoff_wait (h0\<lparr>rh_failure_count := 2\<rparr>) 2 e2 w2) = (Inl e3, w3)
           \<and> retry h0 func w =
               retry_loop (h0\<lparr>rh_failure_count := 2\<rparr>) func [3..mr]
                 (backoff_wait (h0\<lparr>rh_failure_count := 2\<rparr>) 2 e2 w2)
           \<and> rh_circuit_state (h0\<lparr>rh_failure_count := 2\<rparr>) = CLOSED
           \<and> retry h0 func w =
               (Inl (RetryHandlerError ''Circuit breaker opened after 3 consecutive failures''
                       CRITICAL [(''last_error'', Str e3)]),
                h0\<lparr>rh_failure_count := 3, rh_circuit_state := OPEN,
                   rh_last_failure_time := Some (clock w3)\<rparr>,
                w3)
           \<and> (\<forall>f. func = counted f \<longrightarrow> calls w3 = calls w + 3)"
proof -
  let ?h1 = "h0\<lparr>rh_failure_count := 1\<rparr>" and ?h2 = "h0\<lparr>rh_failure_count := 2\<rparr>"
  have cfg: "rh_circuit_failure_threshold h0 = 3" "rh_max_retries h0 = mr"
    "rh_failure_count h0 = 0" "rh_circuit_state h0 = CLOSED"
    by (simp_all add: h0 RetryHandler_init_def)
  from raises obtain e1 w1 where 1: "func w = (Inl e1, w1)" "rh_retry_on h0 e1"
    by (rule always_raisesE)
  from raises obtain e2 w2 where 2: "func (backoff_wait ?h1 1 e1 w1) = (Inl e2, w2)" "rh_retry_on h0 e2"
    by (rule always_raisesE)
  from raises obtain e3 w3 where 3: "func (backoff_wait ?h2 2 e2 w2) = (Inl e3, w3)" "rh_retry_on h0 e3"
    by (rule always_raisesE)
  have r0: "retry h0 func w = retry_loop h0 func (1 # 2 # 3 # [4..mr]) w"
    using cfg mr by (simp add: retry_not_open upto_from_1_3 del: retry_loop.simps)
  have s1: "retry_loop h0 func (1 # 2 # 3 # [4..mr]) w
              = retry_loop ?h1 func (2 # 3 # [4..mr]) (backoff_wait ?h1 1 e1 w1)"
    using retry_loop_retried [of func w e1 w1 h0 1 "2 # 3 # [4..mr]"] 1 cfg mr by simp
  have s2: "retry_loop ?h1 func (2 # 3 # [4..mr]) (backoff_wait ?h1 1 e1 w1)
              = retry_loop ?h2 func (3 # [4..mr]) (backoff_wait ?h2 2 e2 w2)"
    using retry_loop_retried [of func "backoff_wait ?h1 1 e1 w1" e2 w2 ?h1 2 "3 # [4..mr]"] 2 cfg mr
    by simp
  have s3: "retry_loop ?h2 func (3 # [4..mr]) (backoff_wait ?h2 2 e2 w2)
              = (Inl (RetryHandlerError ''Circuit breaker opened after 3 consecutive failures''
                       CRITICAL [(''last_error'', Str e3)]),
                 h0\<lparr>rh_failure_count := 3, rh_circuit_state := OPEN,
                    rh_last_failure_time := Some (clock w3)\<rparr>,
                 w3)"
    using retry_loop_trip [of func "backoff_wait ?h2 2 e2 w2" e3 w3 ?h2 3 "[4..mr]"] 3 cfg
    by (simp add: str_int_examples)
  have up3: "[3..mr] = 3 # [4..mr]" using mr by (simp add: upto_rec1)
  have c: "\<forall>f. func = counted f \<longrightarrow> calls w3 = calls w + 3"
  proof (intro allI impI)
    fix f assume f: "func = counted f"
    from 1 2 3 have "calls w1 = Suc (calls w)" "calls w2 = Suc (calls w1)" "calls w3 = Suc (calls w2)"
      unfolding f by (auto dest: counted_calls_eq)
    then show "calls w3 = calls w + 3" by simp
  qed
  from 1 2 3 r0 s1 s2 s3 up3 cfg c show ?thesis by (auto simp del: retry_loop.simps)
qed

lemma trip_across_calls:
  fixes h0 :: "'a RetryHandler"
  assumes h0: "h0 = RetryHandler_init 1 bd md bs j 3 rt ro"
    and raises: "always_raises (rh_retry_on h0) func"
  shows "\<exists>e1 w1 e2 w2 e3 w3.
           func wa = (Inl e1, w1) \<and> func wb = (Inl e2, w2) \<and> func wc = (Inl e3, w3)
           \<and> retry h0 func wa =
               (Inl (RetryHandlerError ''Failed after 1 attempts'' ERROR [(''last_error'', Str e1)]),
                h0\<lparr>rh_failure_count := 1\<rparr>, w1)
           \<and> rh_circuit_state (h0\<lparr>rh_failure_count := 1\<rparr>) = CLOSED
           \<and> retry (h0\<lparr>rh_failure_count := 1\<rparr>) func wb =
               (Inl (RetryHandlerError ''Failed after 1 attempts'' ERROR [(''last_error'', Str e2)]),
                h0\<lparr>rh_failure_count := 2\<rparr>, w2)
           \<and> rh_circuit_state (h0\<lparr>rh_failure_count := 2\<rparr>) = CLOSED
           \<and> retry (h0\<lparr>rh_failure_count := 2\<rparr>) func wc =
               (Inl (RetryHandlerError ''Circuit breaker opened after 3 consecutive failures''
                       CRITICAL [(''last_error'', Str e3)]),
                h0\<lparr>rh_failure_count := 3, rh_circuit_state := OPEN,
                   rh_last_failure_time := Some (clock w3)\<rparr>,
                w3)"
proof -
  let ?h1 = "h0\<lparr>rh_failure_count := 1\<rparr>" and ?h2 = "h0\<lparr>rh_failure_count := 2\<rparr>"
  have cfg: "rh_circuit_failure_threshold h0 = 3" "rh_max_retries h0 = 1"
    "rh_failure_count h0 = 0" "rh_circuit_state h0 = CLOSED"
    by (simp_all add: h0 RetryHandler_init_def)
  from raises obtain e1 w1 where 1: "func wa = (Inl e1, w1)" "rh_retry_on h0 e1"
    by (rule always_raisesE)
  from raises obtain e2 w2 where 2: "func wb = (Inl e2, w2)" "rh_retry_on h0 e2"
    by (rule always_raisesE)
  from raises obtain e3 w3 where 3: "func wc = (Inl e3, w3)" "rh_retry_on h0 e3"
    by (rule always_raisesE)
  have r: "\<And>h w. rh_circuit_state h \<noteq> OPEN \<Longrightarrow> rh_max_retries h = 1
             \<Longrightarrow> retry h func w = retry_loop h func [1] w"
    by (simp add: retry_not_open del: retry_loop.simps)
  have a: "retry h0 func wa =
             (Inl (RetryHandlerError ''Failed after 1 attempts'' ERROR [(''last_error'', Str e1)]),
              ?h1, w1)"
    using retry_loop_exhausted [of func wa e1 w1 h0 1 "[]"] 1 cfg
    by (simp add: r str_int_examples del: retry_loop.simps)
  have b: "retry ?h1 func wb =
             (Inl (RetryHandlerError ''Failed after 1 attempts'' ERROR [(''last_error'', Str e2)]),
              ?h2, w2)"
    using retry_loop_exhausted [of func wb e2 w2 ?h1 1 "[]"] 2 cfg
    by (simp add: r str_int_examples del: retry_loop.simps)
  have c: "retry ?h2 func wc =
             (Inl (RetryHandlerError ''Circuit breaker opened after 3 consecutive failures''
                     CRITICAL [(''last_error'', Str e3)]),
              h0\<lparr>rh_failure_count := 3, rh_circuit_state := OPEN,
                 rh_last_failure_time := Some (clock w3)\<rparr>, w3)"
    using retry_loop_trip [of func wc e3 w3 ?h2 1 "[]"] 3 cfg
    by (simp add: r str_int_examples del: retry_loop.simps)
  from 1 2 3 a b c cfg show ?thesis by (auto simp del: retry_loop.simps)
qed

lemma upto_1_3: "[1..3] = [1, 2, 3]"
  by (simp add: upto.simps)

lemma exhaust_within_one_call:
  fixes h0 :: "'a RetryHandler"
  assumes h0: "h0 = RetryHandler_init 3 bd md bs j 5 rt ro"
    and raises: "always_raises (rh_retry_on h0) func"
  shows "\<exists>e1 w1 e2 w2 e3 w3.
           func w = (Inl e1, w1)
           \<and> func (backoff_wait (h0\<lparr>rh_failure_count := 1\<rparr>) 1 e1 w1) = (Inl e2, w2)
           \<and> func (backoff_wait (h0\<lparr>rh_failure_count := 2\<rparr>) 2 e2 w2) = (Inl e3, w3)
           \<and> retry h0 func w =
               (Inl (RetryHandlerError ''Failed after 3 attempts'' ERROR
                       [(''last_error'', Str e3)]),
                h0\<lparr>rh_failure_count := 3\<rparr>, w3)
           \<and> rh_circuit_state (h0\<lparr>rh_failure_count := 3\<rparr>) = CLOSED
           \<and> (\<forall>f. func = counted f \<longrightarrow> calls w3 = calls w + 3)"
proof -
  let ?h1 = "h0\<lparr>rh_failure_count := 1\<rparr>" and ?h2 = "h0\<lparr>rh_failure_count := 2\<rparr>"
  have cfg: "rh_circuit_failure_threshold h0 = 5" "rh_max_retries h0 = 3"
    "rh_failure_count h0 = 0" "rh_circuit_state h0 = CLOSED"
    by (simp_all add: h0 RetryHandler_init_def)
  from raises obtain e1 w1 where 1: "func w = (Inl e1, w1)" "rh_retry_on h0 e1"
    by (rule always_raisesE)
  from raises obtain e2 w2 where 2: "func (backoff_wait ?h1 1 e1 w1) = (Inl e2, w2)" "rh_retry_on h0 e2"
    by (rule always_raisesE)
  from raises obtain e3 w3 where 3: "func (backoff_wait ?h2 2 e2 w2) = (Inl e3, w3)" "rh_retry_on h0 e3"
    by (rule always_raisesE)
  have r0: "retry h0 func w = retry_loop h0 func [1, 2, 3] w"
    using cfg by (simp add: retry_not_open upto_1_3 del: retry_loop.simps)
  have s1: "retry_loop h0 func [1, 2, 3] w = retry_loop ?h1 func [2, 3] (backoff_wait ?h1 1 e1 w1)"
    using retry_loop_retried [of func w e1 w1 h0 1 "[2, 3]"] 1 cfg
    by (simp del: retry_loop.simps)
  have s2: "retry_loop ?h1 func [2, 3] (backoff_wait ?h1 1 e1 w1)
              = retry_loop ?h2 func [3] (backoff_wait ?h2 2 e2 w2)"
    using retry_loop_retried [of func "backoff_wait ?h1 1 e1 w1" e2 w2 ?h1 2 "[3]"] 2 cfg
    by (simp del: retry_loop.simps)
  have s3: "retry_loop ?h2 func [3] (backoff_wait ?h2 2 e2 w2)
              = (Inl (RetryHandlerError ''Failed after 3 attempts'' ERROR
                       [(''last_error'', Str e3)]),
                 h0\<lparr>rh_failure_count := 3\<rparr>, w3)"
    using retry_loop_exhausted [of func "backoff_wait ?h2 2 e2 w2" e3 w3 ?h2 3 "[]"] 3 cfg
    by (simp add: str_int_examples del: retry_loop.simps)
  have c: "\<forall>f. func = counted f \<longrightarrow> calls w3 = calls w + 3"
  proof (intro allI impI)
    fix f assume f: "func = counted f"
    from 1 2 3 have "calls w1 = Suc (calls w)" "calls w2 = Suc (calls w1)" "calls w3 = Suc (calls w2)"
      unfolding f by (auto dest: counted_calls_eq)
    then show "calls w3 = calls w + 3" by simp
  qed
  from 1 2 3 r0 s1 s2 s3 cfg c show ?thesis by (auto simp del: retry_loop.simps)
qed

lemma calculate_delay_nonneg: "0 \<le> fst (calculate_delay h attempt w)"
  by (simp add: calculate_delay_def Let_def uniform_def split: prod.splits)

lemma backoff_wait_clock:
  "clock (backoff_wait h attempt e w) = clock w + fst (calculate_delay h attempt w)"
proof -
  obtain d w' where c: "calculate_delay h attempt w = (d, w')" by (cases "calculate_delay h attempt w")
  with calculate_delay_nonneg [of h attempt w] have "0 \<le> d" by simp
  moreover from c have "clock w' = clock w"
    by (auto simp: calculate_delay_def Let_def uniform_def split: prod.splits)
  ultimately show ?thesis using c by (simp add: backoff_wait_def sleep_def logging_def)
qed

lemma backoff_wait_log:
  "log (backoff_wait h attempt e w) =
     log w @ [Retry_attempt attempt e (fst (calculate_delay h attempt w))]"
proof -
  obtain d w' where c: "calculate_delay h attempt w = (d, w')" by (cases "calculate_delay h attempt w")
  then have "log w' = log w"
    by (auto simp: calculate_delay_def Let_def uniform_def split: prod.splits)
  with c show ?thesis by (simp add: backoff_wait_def sleep_def logging_def)
qed

lemma retry_loop_surfaced:
  assumes "retry_loop h (counted f) as w = (Inl err, h', w')"
    and "rh_max_retries h \<notin> set (butlast as)"
  shows "surfaced h w err h' w' (int (length as))"
  using assms
proof (induction as arbitrary: h w)
  case Nil
  then show ?case by simp
next
  case (Cons a as)
  obtain res w1 where f: "f w = (res, w1)" by (cases "f w")
  then have c: "counted f w = (res, w1\<lparr>calls := Suc (calls w)\<rparr>)"
    by (simp add: counted_def)
  show ?case
  proof (cases res)
    case (Inr r)
    with c Cons.prems(1) show ?thesis by simp
  next
    case (Inl e)
    let ?h1 = "h\<lparr>rh_failure_count := rh_failure_count h + 1\<rparr>"
    let ?w1 = "w1\<lparr>calls := Suc (calls w)\<rparr>"
    show ?thesis
    proof (cases "rh_retry_on h e")
      case False
      with c Inl Cons.prems(1) show ?thesis by (auto simp: surfaced_def)
    next
      case True
      note retryable = this
      show ?thesis
      proof (cases "rh_failure_count h + 1 \<ge> rh_circuit_failure_threshold h")
        case True
        with c Inl retryable Cons.prems(1) show ?thesis
          by (auto simp: surfaced_def Let_def)
      next
        case False
        note below = this
        show ?thesis
        proof (cases "a = rh_max_retries h")
          case True
          with Cons.prems(2) have "as = []" by (cases as) auto
          with True c Inl retryable below Cons.prems(1) show ?thesis
            by (auto simp: surfaced_def Let_def)
        next
          case False
          with c Inl retryable below Cons.prems(1)
          have r: "retry_loop ?h1 (counted f) as (backoff_wait ?h1 a e ?w1) = (Inl err, h', w')"
            by (simp add: Let_def)
          then have "as \<noteq> []" by auto
          with Cons.prems(2) have "rh_max_retries ?h1 \<notin> set (butlast as)" by simp
          from Cons.IH [OF r this]
          show ?thesis by (auto simp: surfaced_def split: error.splits)
        qed
      qed
    qed
  qed
qed

lemma butlast_upto: "set (butlast [i..j]) = {i..<j}"
proof (cases "i \<le> j")
  case True
  then have "[i..j] = [i..j - 1] @ [j]" by (rule upto_rec2)
  then show ?thesis by auto
next
  case False
  then show ?thesis by simp
qed

lemma retry_surfaced:
  assumes "retry h (counted f) w = (Inl err, h', w')"
  shows "(err = RetryHandlerError ''Circuit is open. Requests are currently blocked.'' WARNING []
            \<and> h' = h \<and> w' = w)
         \<or> (err = TypeError \<and> rh_circuit_state h = OPEN \<and> rh_last_failure_time h = None)
         \<or> surfaced h w err h' w' (rh_max_retries h)"
proof -
  have n: "\<And>g. rh_max_retries g = rh_max_retries h \<Longrightarrow> rh_retry_on g = rh_retry_on h
             \<Longrightarrow> retry_loop g (counted f) [1..rh_max_retries h] w = (Inl err, h', w')
             \<Longrightarrow> surfaced h w err h' w' (rh_max_retries h)"
  proof -
    fix g :: "'a RetryHandler"
    assume g: "rh_max_retries g = rh_max_retries h" "rh_retry_on g = rh_retry_on h"
      and r: "retry_loop g (counted f) [1..rh_max_retries h] w = (Inl err, h', w')"
    have "rh_max_retries g \<notin> set (butlast [1..rh_max_retries h])"
      by (simp add: butlast_upto g)
    from retry_loop_surfaced [OF r this] have s: "surfaced g w err h' w' (int (length [1..rh_max_retries h]))" .
    from r have "[1..rh_max_retries h] \<noteq> []" by auto
    then have "int (length [1..rh_max_retries h]) = rh_max_retries h" by simp
    with s g show "surfaced h w err h' w' (rh_max_retries h)"
      by (auto simp: surfaced_def split: error.splits)
  qed
  show ?thesis
  proof (cases "rh_circuit_state h = OPEN")
    case False
    with assms n [of h] show ?thesis by (simp add: retry_def)
  next
    case True
    show ?thesis
    proof (cases "rh_last_failure_time h")
      case None
      with True assms show ?thesis by (simp add: retry_def)
    next
      case (Some t)
      show ?thesis
      proof (cases "clock w - t \<ge> rh_circuit_reset_timeout h")
        case True
        with \<open>rh_circuit_state h = OPEN\<close> Some assms n [of "h\<lparr>rh_circuit_state := HALF_OPEN\<rparr>"]
        show ?thesis by (simp add: retry_def)
      next
        case False
        with \<open>rh_circuit_state h = OPEN\<close> Some assms show ?thesis by (auto simp: retry_def)
      qed
    qed
  qed
qed


lemma calculate_delay_world:
  "snd (calculate_delay h attempt w) = w\<lparr>random_index := Suc (random_index w)\<rparr>"
  by (simp add: calculate_delay_def uniform_def Let_def)

lemma calculate_delay_value:
  assumes "1 \<le> attempt"
  shows "fst (calculate_delay h attempt w) =
           max 0 (spec_delay (rh_backoff_strategy h) (rh_base_delay h) (rh_max_delay h) attempt
                  + fst (uniform
                      (- (spec_delay (rh_backoff_strategy h) (rh_base_delay h) (rh_max_delay h) attempt
                          * rh_jitter h))
                      (spec_delay (rh_backoff_strategy h) (rh_base_delay h) (rh_max_delay h) attempt
                          * rh_jitter h) w))"
proof -
  from assms have "0 \<le> attempt - 1" "0 \<le> attempt" by simp_all
  then have p: "\<And>x::real. x powi (attempt - 1) = x ^ nat (attempt - 1)"
    "\<And>x::real. x powi attempt = x ^ nat attempt"
    by (simp_all add: power_int_def)
  show ?thesis
    by (cases "rh_backoff_strategy h")
       (simp_all add: calculate_delay_def spec_delay_def uniform_def Let_def p mult.commute)
qed

lemma uniform_symmetric_bounds:
  assumes "0 \<le> a" and "0 \<le> random_values w (random_index w)"
    and "random_values w (random_index w) < 1"
  shows "- a \<le> fst (uniform (- a) a w)" and "fst (uniform (- a) a w) \<le> a"
proof -
  let ?r = "random_values w (random_index w)"
  have u: "fst (uniform (- a) a w) = - a + 2 * a * ?r"
    by (simp add: uniform_def algebra_simps)
  from assms have "0 \<le> 2 * a * ?r" by simp
  then show "- a \<le> fst (uniform (- a) a w)" unfolding u by simp
  from assms have "0 \<le> 2 * a * (1 - ?r)" by simp
  then show "fst (uniform (- a) a w) \<le> a" unfolding u by (simp add: algebra_simps)
qed

lemma uniform_zero: "fst (uniform (- 0) 0 w) = 0"
  by (simp add: uniform_def)

lemma spec_delay_examples:
  "spec_delay EXPONENTIAL 1 10 3 = 4"
  "spec_delay EXPONENTIAL 1 10 5 = 10"
  "spec_delay LINEAR 2 60 3 = 6"
  "spec_delay CONSTANT 2 60 3 = 2"
  "spec_delay FIBONACCI 1 10 2 = 2617924 / 1000000"
  by (simp_all add: spec_delay_def power2_eq_square)

lemma calculate_backoff_values:
  "backoff_strategy s = ''exponential'' \<Longrightarrow>
     calculate_backoff s attempt w =
       (min (reset_timeout s) (2 powi attempt)
          + fst (uniform 0 (1 / 10 * min (reset_timeout s) (2 powi attempt)) w),
        w\<lparr>random_index := Suc (random_index w)\<rparr>)"
  "backoff_strategy s = ''linear'' \<Longrightarrow>
     calculate_backoff s attempt w = (min (reset_timeout s) (of_int (attempt * 5)), w)"
  "backoff_strategy s \<noteq> ''exponential'' \<Longrightarrow> backoff_strategy s \<noteq> ''linear'' \<Longrightarrow>
     calculate_backoff s attempt w = (reset_timeout s, w)"
  by (simp_all add: calculate_backoff_def uniform_def Let_def)

lemma spec_backoff_first_attempt:
  "spec_backoff EXPONENTIAL b m j 1 r = spec_backoff LINEAR b m j 1 r"
  by (simp add: spec_backoff_def spec_delay_def)

lemma calculate_delay_spec_backoff:
  assumes "1 \<le> attempt"
  shows "fst (calculate_delay h attempt w) =
           spec_backoff (rh_backoff_strategy h) (rh_base_delay h) (rh_max_delay h) (rh_jitter h)
             attempt (random_values w (random_index w))"
  unfolding calculate_delay_value [OF assms]
  by (simp add: spec_backoff_def uniform_def Let_def algebra_simps)

lemma uniform_upper_bounds:
  assumes "0 \<le> a" and "0 \<le> random_values w (random_index w)"
    and "random_values w (random_index w) < 1"
  shows "0 \<le> fst (uniform 0 a w)" and "fst (uniform 0 a w) \<le> a"
proof -
  let ?r = "random_values w (random_index w)"
  have u: "fst (uniform 0 a w) = a * ?r" by (simp add: uniform_def)
  from assms show "0 \<le> fst (uniform 0 a w)" unfolding u by simp
  from assms have "a * ?r \<le> a * 1" by (intro mult_left_mono) simp_all
  then show "fst (uniform 0 a w) \<le> a" unfolding u by simp
qed

lemma calculate_backoff_exponential:
  assumes "1 \<le> attempt" and "backoff_strategy s = ''exponential''"
  shows "calculate_backoff s attempt w =
           (min (reset_timeout s) (2 ^ nat attempt)
              + fst (uniform 0 (1 / 10 * min (reset_timeout s) (2 ^ nat attempt)) w),
            w\<lparr>random_index := Suc (random_index w)\<rparr>)"
proof -
  from assms(1) have "(2::real) powi attempt = 2 ^ nat attempt" by (simp add: power_int_def)
  with assms(2) show ?thesis by (simp add: calculate_backoff_values)
qed

lemma failover_backoff_examples:
  "fst (calculate_backoff (FailoverStrategy_init 3 60 ''exponential'' :: (unit, nat) FailoverStrategy)
          1 (test_world 0)) = 2"
  "fst (calculate_backoff (FailoverStrategy_init 3 60 ''linear'' :: (unit, nat) FailoverStrategy)
          1 (test_world 0)) = 5"
  "fst (calculate_backoff (FailoverStrategy_init 3 60 ''constant'' :: (unit, nat) FailoverStrategy)
          1 (test_world 0)) = 60"
  by (simp_all add: calculate_backoff_def FailoverStrategy_init_def uniform_def test_world_def
        Let_def)

lemma calculate_delay_spec:
  assumes a: "1 \<le> attempt"
  shows "fst (calculate_delay h attempt w) =
       max 0 (spec_delay (rh_backoff_strategy h) (rh_base_delay h) (rh_max_delay h) attempt
              + fst (uniform
                  (- (spec_delay (rh_backoff_strategy h) (rh_base_delay h) (rh_max_delay h) attempt
                      * rh_jitter h))
                  (spec_delay (rh_backoff_strategy h) (rh_base_delay h) (rh_max_delay h) attempt
                      * rh_jitter h) w))
     \<and> (0 \<le> spec_delay (rh_backoff_strategy h) (rh_base_delay h) (rh_max_delay h) attempt
            * rh_jitter h
          \<and> 0 \<le> random_values w (random_index w) \<and> random_values w (random_index w) < 1
        \<longrightarrow> - (spec_delay (rh_backoff_strategy h) (rh_base_delay h) (rh_max_delay h) attempt
                * rh_jitter h)
              \<le> fst (uniform
                  (- (spec_delay (rh_backoff_strategy h) (rh_base_delay h) (rh_max_delay h) attempt
                      * rh_jitter h))
                  (spec_delay (rh_backoff_strategy h) (rh_base_delay h) (rh_max_delay h) attempt
                      * rh_jitter h) w)
            \<and> fst (uniform
                  (- (spec_delay (rh_backoff_strategy h) (rh_base_delay h) (rh_max_delay h) attempt
                      * rh_jitter h))
                  (spec_delay (rh_backoff_strategy h) (rh_base_delay h) (rh_max_delay h) attempt
                      * rh_jitter h) w)
              \<le> spec_delay (rh_backoff_strategy h) (rh_base_delay h) (rh_max_delay h) attempt
                  * rh_jitter h)
     \<and> (rh_jitter h = 0
        \<longrightarrow> fst (calculate_delay h attempt w) =
              max 0 (spec_delay (rh_backoff_strategy h) (rh_base_delay h) (rh_max_delay h) attempt))
     \<and> (rh_jitter h = 0 \<and> 0 \<le> rh_base_delay h \<and> 0 \<le> rh_max_delay h
        \<longrightarrow> fst (calculate_delay h attempt w) =
              spec_delay (rh_backoff_strategy h) (rh_base_delay h) (rh_max_delay h) attempt)
     \<and> snd (calculate_delay h attempt w) = w\<lparr>random_index := Suc (random_index w)\<rparr>"
proof -
  let ?d = "spec_delay (rh_backoff_strategy h) (rh_base_delay h) (rh_max_delay h) attempt"
  note v = calculate_delay_value [OF a, of h w]
  have z: "rh_jitter h = 0 \<Longrightarrow> fst (calculate_delay h attempt w) = max 0 ?d"
    unfolding v by (simp add: uniform_def)
  have nn: "0 \<le> rh_base_delay h \<Longrightarrow> 0 \<le> rh_max_delay h \<Longrightarrow> 0 \<le> ?d"
    using a by (cases "rh_backoff_strategy h") (simp_all add: spec_delay_def)
  have 2: "0 \<le> ?d * rh_jitter h
          \<and> 0 \<le> random_values w (random_index w) \<and> random_values w (random_index w) < 1
        \<longrightarrow> - (?d * rh_jitter h) \<le> fst (uniform (- (?d * rh_jitter h)) (?d * rh_jitter h) w)
            \<and> fst (uniform (- (?d * rh_jitter h)) (?d * rh_jitter h) w) \<le> ?d * rh_jitter h"
    using uniform_symmetric_bounds [of "?d * rh_jitter h" w] by blast
  have 3: "rh_jitter h = 0 \<longrightarrow> fst (calculate_delay h attempt w) = max 0 ?d"
    using z by blast
  have 4: "rh_jitter h = 0 \<and> 0 \<le> rh_base_delay h \<and> 0 \<le> rh_max_delay h
        \<longrightarrow> fst (calculate_delay h attempt w) = ?d"
  proof
    assume j: "rh_jitter h = 0 \<and> 0 \<le> rh_base_delay h \<and> 0 \<le> rh_max_delay h"
    then have "0 \<le> ?d" using nn by blast
    with z j show "fst (calculate_delay h attempt w) = ?d" by simp
  qed
  have 5: "snd (calculate_delay h attempt w) = w\<lparr>random_index := Suc (random_index w)\<rparr>"
    by (rule calculate_delay_world)
  from v 2 3 4 5
  show "fst (calculate_delay h attempt w) =
       max 0 (?d + fst (uniform (- (?d * rh_jitter h)) (?d * rh_jitter h) w))
     \<and> (0 \<le> ?d * rh_jitter h
          \<and> 0 \<le> random_values w (random_index w) \<and> random_values w (random_index w) < 1
        \<longrightarrow> - (?d * rh_jitter h) \<le> fst (uniform (- (?d * rh_jitter h)) (?d * rh_jitter h) w)
            \<and> fst (uniform (- (?d * rh_jitter h)) (?d * rh_jitter h) w) \<le> ?d * rh_jitter h)
     \<and> (rh_jitter h = 0 \<longrightarrow> fst (calculate_delay h attempt w) = max 0 ?d)
     \<and> (rh_jitter h = 0 \<and> 0 \<le> rh_base_delay h \<and> 0 \<le> rh_max_delay h
        \<longrightarrow> fst (calculate_delay h attempt w) = ?d)
     \<and> snd (calculate_delay h attempt w) = w\<lparr>random_index := Suc (random_index w)\<rparr>"
    by blast
qed

lemma calculate_backoff_spec:
  assumes a: "1 \<le> attempt"
  shows "(backoff_strategy s = ''exponential''
        \<longrightarrow> calculate_backoff s attempt v =
              (min (reset_timeout s) (2 ^ nat attempt)
                 + fst (uniform 0 (1 / 10 * min (reset_timeout s) (2 ^ nat attempt)) v),
               v\<lparr>random_index := Suc (random_index v)\<rparr>)
            \<and> (0 \<le> min (reset_timeout s) (2 ^ nat attempt)
                 \<and> 0 \<le> random_values v (random_index v) \<and> random_values v (random_index v) < 1
               \<longrightarrow> 0 \<le> fst (uniform 0 (1 / 10 * min (reset_timeout s) (2 ^ nat attempt)) v)
                   \<and> fst (uniform 0 (1 / 10 * min (reset_timeout s) (2 ^ nat attempt)) v)
                       \<le> 1 / 10 * min (reset_timeout s) (2 ^ nat attempt)))
     \<and> (backoff_strategy s = ''linear''
        \<longrightarrow> calculate_backoff s attempt v = (min (reset_timeout s) (of_int (attempt * 5)), v))
     \<and> (backoff_strategy s \<noteq> ''exponential'' \<and> backoff_strategy s \<noteq> ''linear''
        \<longrightarrow> calculate_backoff s attempt v = (reset_timeout s, v))"
proof -
  let ?b = "min (reset_timeout s) (2 ^ nat attempt)"
  have e: "backoff_strategy s = ''exponential'' \<longrightarrow>
      calculate_backoff s attempt v =
        (?b + fst (uniform 0 (1 / 10 * ?b) v), v\<lparr>random_index := Suc (random_index v)\<rparr>)"
    using calculate_backoff_exponential [OF a, of s v] by blast
  have j: "0 \<le> ?b \<and> 0 \<le> random_values v (random_index v) \<and> random_values v (random_index v) < 1
      \<longrightarrow> 0 \<le> fst (uniform 0 (1 / 10 * ?b) v) \<and> fst (uniform 0 (1 / 10 * ?b) v) \<le> 1 / 10 * ?b"
    using uniform_upper_bounds [of "1 / 10 * ?b" v] by simp
  have l: "backoff_strategy s = ''linear'' \<longrightarrow>
      calculate_backoff s attempt v = (min (reset_timeout s) (of_int (attempt * 5)), v)"
    using calculate_backoff_values(2) [of s attempt v] by blast
  have c: "backoff_strategy s \<noteq> ''exponential'' \<and> backoff_strategy s \<noteq> ''linear'' \<longrightarrow>
      calculate_backoff s attempt v = (reset_timeout s, v)"
    using calculate_backoff_values(3) [of s attempt v] by blast
  from e j l c show ?thesis by blast
qed

section \<open>Lemmas on the failover strategy and on the test doubles\<close>

lemma attempt_fallback_state [simp]: "fst (snd (attempt_fallback s key e w)) = s"
  by (simp add: attempt_fallback_def split: option.splits prod.splits sum.splits)

lemma circuit_still_open_state [simp]: "fst (snd (circuit_still_open s key w)) = s"
  by (simp add: circuit_still_open_def split: option.splits prod.splits sum.splits)

lemma on_failure_state:
  "fst (snd (on_failure s key t e w)) =
     (case failures s key of None \<Rightarrow> s | Some n \<Rightarrow> track_failure s key t n)"
  by (simp add: on_failure_def split: option.splits)

lemma wrapper_state:
  "fst (snd (wrapper s key func w)) =
     (let s1 = initialize_state s key in
      if circuit_blocked s1 key (clock w) then s1
      else let s2 = move_to_half_open s1 key in
           (case fst (func w) of
              Inr r \<Rightarrow> on_success s2 key
            | Inl e \<Rightarrow> if is_Exception e then fst (snd (on_failure s2 key (clock w) e (snd (func w)))) else s2))"
  by (simp add: wrapper_def Let_def split: prod.splits sum.splits)

lemma initialize_state_consistent:
  "failover_consistent s \<Longrightarrow> failover_consistent (initialize_state s key)"
  by (auto simp: failover_consistent_def initialize_state_def)

lemma move_to_half_open_consistent:
  "failover_consistent s \<Longrightarrow> failover_consistent (move_to_half_open s key)"
  by (auto simp: failover_consistent_def move_to_half_open_def)

lemma move_to_half_open_not_open:
  "circuit_state (move_to_half_open s key) key \<noteq> Some CB_OPEN"
  by (simp add: move_to_half_open_def)

lemma prepared_present:
  "circuit_state (move_to_half_open (initialize_state s key) key) key \<noteq> None"
  by (simp add: move_to_half_open_def initialize_state_def)

lemma on_success_consistent:
  "failover_consistent s \<Longrightarrow> circuit_state s key \<noteq> Some CB_OPEN
   \<Longrightarrow> circuit_state s key \<noteq> None \<Longrightarrow> failover_consistent (on_success s key)"
  by (auto simp: failover_consistent_def on_success_def)

lemma track_failure_consistent:
  "failover_consistent s \<Longrightarrow> circuit_state s key \<noteq> Some CB_OPEN
   \<Longrightarrow> circuit_state s key \<noteq> None \<Longrightarrow> failover_consistent (track_failure s key t n)"
  by (auto simp: failover_consistent_def track_failure_def Let_def)

lemma on_failure_consistent:
  "failover_consistent s \<Longrightarrow> circuit_state s key \<noteq> Some CB_OPEN
   \<Longrightarrow> circuit_state s key \<noteq> None
   \<Longrightarrow> failover_consistent (fst (snd (on_failure s key t e w)))"
  by (simp add: on_failure_state track_failure_consistent split: option.splits)

lemma wrapper_consistent:
  assumes "failover_consistent s"
  shows "failover_consistent (fst (snd (wrapper s key func w)))"
proof -
  let ?s1 = "initialize_state s key"
  let ?s2 = "move_to_half_open ?s1 key"
  have c1: "failover_consistent ?s1" using assms by (rule initialize_state_consistent)
  then have c2: "failover_consistent ?s2" by (rule move_to_half_open_consistent)
  have n2: "circuit_state ?s2 key \<noteq> Some CB_OPEN" by (rule move_to_half_open_not_open)
  have p2: "circuit_state ?s2 key \<noteq> None" by (rule prepared_present)
  show ?thesis
    unfolding wrapper_state Let_def
    using c1 c2 on_success_consistent [OF c2 n2 p2] on_failure_consistent [OF c2 n2 p2]
    by (simp split: sum.splits)
qed

lemma wrapper_max_failures:
  "max_failures (fst (snd (wrapper s key func w))) = max_failures s"
  by (simp add: wrapper_state on_failure_state Let_def initialize_state_def move_to_half_open_def
        on_success_def track_failure_def split: sum.splits option.splits)

lemma reset_circuit_consistent:
  "failover_consistent s \<Longrightarrow> failover_consistent (reset_circuit s key)"
  by (auto simp: failover_consistent_def reset_circuit_def split: option.splits)

lemma register_fallback_consistent:
  "failover_consistent s \<Longrightarrow> failover_consistent (register_fallback s name fb)"
  by (auto simp: failover_consistent_def register_fallback_def)

lemma failover_step_consistent:
  "failover_consistent s \<Longrightarrow> failover_consistent (failover_step s ev)"
  by (cases ev) (simp_all add: wrapper_consistent reset_circuit_consistent register_fallback_consistent)

lemma failover_step_max_failures:
  "max_failures (failover_step s ev) = max_failures s"
  by (cases ev) (simp_all add: wrapper_max_failures reset_circuit_def register_fallback_def split: option.splits)

lemma failover_run_consistent:
  "failover_consistent s \<Longrightarrow> failover_consistent (failover_run s evs)"
  by (induction s evs rule: failover_run.induct) (simp_all add: failover_step_consistent)

lemma failover_run_max_failures:
  "max_failures (failover_run s evs) = max_failures s"
  by (induction s evs rule: failover_run.induct) (simp_all add: failover_step_max_failures)

lemma failover_init_consistent: "failover_consistent (FailoverStrategy_init mf rt bs)"
  by (simp add: failover_consistent_def FailoverStrategy_init_def)

lemma initialize_state_present: "circuit_state s key \<noteq> None \<Longrightarrow> initialize_state s key = s"
  by (auto simp: initialize_state_def)

lemma wrapper_blocked:
  assumes "circuit_state s key = Some CB_OPEN"
    and "clock w - (case last_failure_time s key of None \<Rightarrow> 0 | Some t \<Rightarrow> t) < reset_timeout s"
  shows "wrapper s key func w = circuit_still_open s key w"
  using assms by (simp add: wrapper_def initialize_state_present circuit_blocked_def)

lemma failover_run_blocked:
  assumes "circuit_state s key = Some CB_OPEN"
    and "\<forall>(f, w) \<in> set cs.
           clock w - (case last_failure_time s key of None \<Rightarrow> 0 | Some t \<Rightarrow> t) < reset_timeout s"
  shows "failover_run s (map (\<lambda>(f, w). Call key f w) cs) = s"
  using assms
proof (induction cs)
  case Nil
  then show ?case by simp
next
  case (Cons c cs)
  obtain f w where c: "c = (f, w)" by (cases c)
  with Cons.prems have "fst (snd (wrapper s key f w)) = s"
    by (simp add: wrapper_blocked)
  with Cons c show ?case by simp
qed

lemma tripped_handler_eq:
  "tripped_handler =
     (RetryHandler_init 1 1 60 CONSTANT 0 1 30 None)
       \<lparr>rh_failure_count := 1, rh_circuit_state := OPEN, rh_last_failure_time := Some 0\<rparr>"
  by (simp add: tripped_handler_def retry_def RetryHandler_init_def failing_def counted_def
        test_world_def)

lemma tripped_failover_eq:
  "tripped_failover =
     (FailoverStrategy_init 1 60 ''exponential'')
       \<lparr>failures := [''f'' \<mapsto> 1], last_failure_time := [''f'' \<mapsto> 0],
         circuit_state := [''f'' \<mapsto> CB_OPEN]\<rparr>"
  by (simp add: tripped_failover_def wrapper_def FailoverStrategy_init_def failing_def counted_def
        test_world_def initialize_state_def circuit_blocked_def move_to_half_open_def
        on_failure_def track_failure_def attempt_fallback_def failure_log_def Let_def)

lemma failover_consistent_status:
  assumes "failover_consistent s" and "status_state (get_circuit_status s key) = CB_OPEN"
  shows "status_last_failure_time (get_circuit_status s key) \<noteq> None
         \<and> status_failures (get_circuit_status s key) \<ge> max_failures s"
proof -
  from assms(2) have "circuit_state s key = Some CB_OPEN"
    by (simp add: get_circuit_status_def split: option.splits)
  with assms(1) show ?thesis
    by (auto simp: failover_consistent_def get_circuit_status_def)
qed

lemma failing_apply:
  "failing w = (Inl (Exception ()), w\<lparr>calls := Suc (calls w)\<rparr>)"
  by (simp add: failing_def counted_def)

lemma succeeding_apply:
  "succeeding w = (Inr 7, w\<lparr>calls := Suc (calls w)\<rparr>)"
  by (simp add: succeeding_def counted_def)

lemma track_failure_fields:
  "circuit_state (track_failure s key t n) key =
     (if n + 1 \<ge> max_failures s then Some CB_OPEN else circuit_state s key)"
  "failures (track_failure s key t n) key = Some (n + 1)"
  "last_failure_time (track_failure s key t n) key = Some t"
  "max_failures (track_failure s key t n) = max_failures s"
  by (simp_all add: track_failure_def Let_def)

lemma wrapper_failure_state:
  assumes "func w = (Inl e, w1)" and "is_Exception e"
    and "\<not> circuit_blocked (initialize_state s key) key (clock w)"
    and "failures (move_to_half_open (initialize_state s key) key) key = Some n"
  shows "fst (snd (wrapper s key func w)) =
           track_failure (move_to_half_open (initialize_state s key) key) key (clock w) n"
  using assms by (simp add: wrapper_state on_failure_state Let_def)

lemma failover_counts_failure:
  assumes "always_raises is_Exception func"
    and "circuit_state s key = Some CB_CLOSED" and "failures s key = Some n"
  shows "get_circuit_status (fst (snd (wrapper s key func w))) key =
           \<lparr>status_state = (if n + 1 \<ge> max_failures s then CB_OPEN else CB_CLOSED),
            status_failures = n + 1, status_last_failure_time = Some (clock w)\<rparr>"
    and "circuit_state (fst (snd (wrapper s key func w))) key =
           Some (if n + 1 \<ge> max_failures s then CB_OPEN else CB_CLOSED)"
    and "failures (fst (snd (wrapper s key func w))) key = Some (n + 1)"
    and "max_failures (fst (snd (wrapper s key func w))) = max_failures s"
proof -
  from assms(1) obtain e w1 where f: "func w = (Inl e, w1)" "is_Exception e"
    by (rule always_raisesE)
  from assms(2) have i: "initialize_state s key = s" by (simp add: initialize_state_present)
  from assms(2) have b: "\<not> circuit_blocked s key (clock w)" by (simp add: circuit_blocked_def)
  from assms(2) have m: "move_to_half_open s key = s" by (simp add: move_to_half_open_def)
  have st: "fst (snd (wrapper s key func w)) = track_failure s key (clock w) n"
    using wrapper_failure_state [of func w e w1 s key n] f b assms(3) by (simp add: i m)
  show "get_circuit_status (fst (snd (wrapper s key func w))) key =
           \<lparr>status_state = (if n + 1 \<ge> max_failures s then CB_OPEN else CB_CLOSED),
            status_failures = n + 1, status_last_failure_time = Some (clock w)\<rparr>"
    and "circuit_state (fst (snd (wrapper s key func w))) key =
           Some (if n + 1 \<ge> max_failures s then CB_OPEN else CB_CLOSED)"
    and "failures (fst (snd (wrapper s key func w))) key = Some (n + 1)"
    and "max_failures (fst (snd (wrapper s key func w))) = max_failures s"
    using assms(2) by (simp_all add: st get_circuit_status_def track_failure_fields)
qed

lemma failover_first_failure:
  assumes "always_raises is_Exception func" and "circuit_state s key = None"
  shows "get_circuit_status (fst (snd (wrapper s key func w))) key =
           \<lparr>status_state = (if 1 \<ge> max_failures s then CB_OPEN else CB_CLOSED),
            status_failures = 1, status_last_failure_time = Some (clock w)\<rparr>"
    and "circuit_state (fst (snd (wrapper s key func w))) key =
           Some (if 1 \<ge> max_failures s then CB_OPEN else CB_CLOSED)"
    and "failures (fst (snd (wrapper s key func w))) key = Some 1"
    and "max_failures (fst (snd (wrapper s key func w))) = max_failures s"
proof -
  let ?s1 = "initialize_state s key"
  from assms(1) obtain e w1 where f: "func w = (Inl e, w1)" "is_Exception e"
    by (rule always_raisesE)
  from assms(2) have i: "circuit_state ?s1 key = Some CB_CLOSED" "failures ?s1 key = Some 0"
    "max_failures ?s1 = max_failures s"
    by (simp_all add: initialize_state_def)
  from i have b: "\<not> circuit_blocked ?s1 key (clock w)" by (simp add: circuit_blocked_def)
  from i have m: "move_to_half_open ?s1 key = ?s1" by (simp add: move_to_half_open_def)
  have st: "fst (snd (wrapper s key func w)) = track_failure ?s1 key (clock w) 0"
    using wrapper_failure_state [of func w e w1 s key 0] f b i by (simp add: m)
  show "get_circuit_status (fst (snd (wrapper s key func w))) key =
           \<lparr>status_state = (if 1 \<ge> max_failures s then CB_OPEN else CB_CLOSED),
            status_failures = 1, status_last_failure_time = Some (clock w)\<rparr>"
    and "circuit_state (fst (snd (wrapper s key func w))) key =
           Some (if 1 \<ge> max_failures s then CB_OPEN else CB_CLOSED)"
    and "failures (fst (snd (wrapper s key func w))) key = Some 1"
    and "max_failures (fst (snd (wrapper s key func w))) = max_failures s"
    using i by (simp_all add: st get_circuit_status_def track_failure_fields)
qed

lemma failover_trip_across_calls:
  assumes "max_failures s0 = 3" and "circuit_state s0 key = None"
    and raises: "always_raises is_Exception func"
  shows "get_circuit_status (failover_run s0 [Call key func va]) key =
           \<lparr>status_state = CB_CLOSED, status_failures = 1, status_last_failure_time = Some (clock va)\<rparr>
         \<and> get_circuit_status (failover_run s0 [Call key func va, Call key func vb]) key =
           \<lparr>status_state = CB_CLOSED, status_failures = 2, status_last_failure_time = Some (clock vb)\<rparr>
         \<and> get_circuit_status
             (failover_run s0 [Call key func va, Call key func vb, Call key func vc]) key =
           \<lparr>status_state = CB_OPEN, status_failures = 3, status_last_failure_time = Some (clock vc)\<rparr>"
proof -
  let ?s1 = "fst (snd (wrapper s0 key func va))"
  let ?s2 = "fst (snd (wrapper ?s1 key func vb))"
  let ?s3 = "fst (snd (wrapper ?s2 key func vc))"
  note 1 = failover_first_failure [OF raises assms(2), of va]
  have c1: "circuit_state ?s1 key = Some CB_CLOSED" "failures ?s1 key = Some 1"
    "max_failures ?s1 = 3"
    using 1 assms(1) by simp_all
  note 2 = failover_counts_failure [OF raises c1(1,2), of vb]
  have c2: "circuit_state ?s2 key = Some CB_CLOSED" "failures ?s2 key = Some 2"
    "max_failures ?s2 = 3"
    using 2 c1(3) by simp_all
  note 3 = failover_counts_failure [OF raises c2(1,2), of vc]
  from 1(1) 2(1) 3(1) assms(1) c1(3) c2(3) show ?thesis by simp
qed

lemma failing_always_raises: "always_raises is_Exception failing"
  by (simp add: always_raises_def failing_apply)

lemma patient_handler_fields:
  "rh_retry_on (patient_handler m k) = is_Exception"
  "rh_max_retries (patient_handler m k) = m"
  "rh_circuit_failure_threshold (patient_handler m k) = k"
  "rh_circuit_state (patient_handler m k) = CLOSED"
  "rh_failure_count (patient_handler m k) = 0"
  by (simp_all add: patient_handler_def RetryHandler_init_def)

lemma patient_backoff_wait:
  "backoff_wait ((patient_handler m k)\<lparr>rh_failure_count := n\<rparr>) a e w =
     w\<lparr>clock := clock w + 1, random_index := Suc (random_index w),
       log := log w @ [Retry_attempt a e 1]\<rparr>"
  by (simp add: backoff_wait_def calculate_delay_def uniform_def sleep_def logging_def
        patient_handler_def RetryHandler_init_def Let_def)

lemma exhausted_example:
  "retry (patient_handler 3 5) failing (test_world 0) =
     (Inl (RetryHandlerError ''Failed after 3 attempts'' ERROR
             [(''last_error'', Str (Exception ()))]),
      (patient_handler 3 5)\<lparr>rh_failure_count := 3\<rparr>,
      \<lparr>clock = 2, random_values = (\<lambda>_. 0), random_index = 2,
       log = [Retry_attempt 1 (Exception ()) 1, Retry_attempt 2 (Exception ()) 1],
       calls = 3\<rparr>)"
proof -
  let ?h = "patient_handler 3 5"
  have "always_raises (rh_retry_on ?h) failing"
    by (simp add: patient_handler_fields failing_always_raises)
  from exhaust_within_one_call [OF patient_handler_def this, of "test_world 0"]
  obtain e1 w1 e2 w2 e3 w3 where
    a: "failing (test_world 0) = (Inl e1, w1)"
       "failing (backoff_wait (?h\<lparr>rh_failure_count := 1\<rparr>) 1 e1 w1) = (Inl e2, w2)"
       "failing (backoff_wait (?h\<lparr>rh_failure_count := 2\<rparr>) 2 e2 w2) = (Inl e3, w3)"
    and b: "retry ?h failing (test_world 0) =
               (Inl (RetryHandlerError ''Failed after 3 attempts'' ERROR
                       [(''last_error'', Str e3)]),
                ?h\<lparr>rh_failure_count := 3\<rparr>, w3)"
    by blast
  from a have "e3 = Exception () \<and> w3 = \<lparr>clock = 2, random_values = (\<lambda>_. 0), random_index = 2,
         log = [Retry_attempt 1 (Exception ()) 1, Retry_attempt 2 (Exception ()) 1],
         calls = 3\<rparr>"
    by (auto simp: failing_apply patient_backoff_wait test_world_def)
  with b show ?thesis by simp
qed

lemma interrupted_apply:
  "interrupted w = (Inl (BaseException ()), w\<lparr>calls := Suc (calls w)\<rparr>)"
  by (simp add: interrupted_def counted_def)

lemma wrapper_not_blocked:
  assumes "\<not> (circuit_state s key = Some CB_OPEN
              \<and> clock w - (case last_failure_time s key of None \<Rightarrow> 0 | Some t \<Rightarrow> t) < reset_timeout s)"
  shows "\<not> circuit_blocked (initialize_state s key) key (clock w)"
  using assms by (auto simp: circuit_blocked_def initialize_state_def)

lemma wrapper_passes_BaseException:
  assumes "func w = (Inl e, w1)" and "\<not> is_Exception e"
    and "\<not> (circuit_state s key = Some CB_OPEN
              \<and> clock w - (case last_failure_time s key of None \<Rightarrow> 0 | Some t \<Rightarrow> t) < reset_timeout s)"
  shows "wrapper s key func w = (Inl (Raised e), move_to_half_open (initialize_state s key) key, w1)"
  using assms(1,2) wrapper_not_blocked [OF assms(3)] by (simp add: wrapper_def Let_def)

lemma prepared_status:
  assumes "failover_consistent s"
  shows "status_failures (get_circuit_status (move_to_half_open (initialize_state s key) key) k)
     = status_failures (get_circuit_status s k)"
  "status_last_failure_time (get_circuit_status (move_to_half_open (initialize_state s key) key) k)
     = status_last_failure_time (get_circuit_status s k)"
  "status_state (get_circuit_status (move_to_half_open (initialize_state s key) key) k)
     = (if k = key \<and> circuit_state s key = Some CB_OPEN then CB_HALF_OPEN
        else status_state (get_circuit_status s k))"
proof -
  from assms have "circuit_state s key = None \<Longrightarrow> failures s key = None"
    by (simp add: failover_consistent_def)
  then show "status_failures (get_circuit_status (move_to_half_open (initialize_state s key) key) k)
     = status_failures (get_circuit_status s k)"
  "status_last_failure_time (get_circuit_status (move_to_half_open (initialize_state s key) key) k)
     = status_last_failure_time (get_circuit_status s k)"
  "status_state (get_circuit_status (move_to_half_open (initialize_state s key) key) k)
     = (if k = key \<and> circuit_state s key = Some CB_OPEN then CB_HALF_OPEN
        else status_state (get_circuit_status s k))"
    by (auto simp: get_circuit_status_def move_to_half_open_def initialize_state_def)
qed

lemma prepared_fields:
  "max_failures (move_to_half_open (initialize_state s key) key) = max_failures s"
  "fallback_handlers (move_to_half_open (initialize_state s key) key) = fallback_handlers s"
  by (simp_all add: move_to_half_open_def initialize_state_def)

lemma prepared_failures:
  assumes "failover_consistent s"
  shows "failures (move_to_half_open (initialize_state s key) key) key
           = Some (status_failures (get_circuit_status s key))"
proof (cases "circuit_state s key")
  case None
  from assms have "(circuit_state s key = None) = (failures s key = None)"
    unfolding failover_consistent_def by blast
  with None have "failures s key = None" by simp
  with None show ?thesis
    by (simp add: move_to_half_open_def initialize_state_def get_circuit_status_def)
next
  case (Some st)
  from assms have "(circuit_state s key = None) = (failures s key = None)"
    unfolding failover_consistent_def by blast
  with Some obtain n where "failures s key = Some n" by auto
  with Some show ?thesis
    by (simp add: move_to_half_open_def initialize_state_def get_circuit_status_def)
qed

lemma track_failure_fallback [simp]:
  "fallback_handlers (track_failure s key t n) = fallback_handlers s"
  by (simp add: track_failure_def Let_def)

lemma failure_log_prepared:
  "failure_log (move_to_half_open (initialize_state s key) key) key n e w = failure_log s key n e w"
  by (simp add: failure_log_def prepared_fields)

lemma wrapper_failure_with_fallback:
  assumes c: "failover_consistent s"
    and nb: "\<not> (circuit_state s key = Some CB_OPEN
              \<and> clock w - (case last_failure_time s key of None \<Rightarrow> 0 | Some t \<Rightarrow> t) < reset_timeout s)"
    and f: "func w = (Inl e, w1)" "is_Exception e"
    and fb: "fallback_handlers s key = Some fallback"
    and r: "fallback (failure_log s key (status_failures (get_circuit_status s key)) e w1) = (Inl fe, w3)"
  shows "fst (wrapper s key func w) = Inl (Raised (if is_Exception fe then e else fe))"
    and "snd (snd (wrapper s key func w)) =
           (if is_Exception fe then logging (Fallback_failed key fe) w3 else w3)"
proof -
  let ?s2 = "move_to_half_open (initialize_state s key) key"
  let ?n = "status_failures (get_circuit_status s key)"
  have w: "wrapper s key func w = on_failure ?s2 key (clock w) e w1"
    using f wrapper_not_blocked [OF nb] by (simp add: wrapper_def Let_def)
  have o: "on_failure ?s2 key (clock w) e w1 =
             attempt_fallback (track_failure ?s2 key (clock w) ?n) key e (failure_log s key ?n e w1)"
    by (simp add: on_failure_def prepared_failures [OF c] failure_log_prepared)
  show "fst (wrapper s key func w) = Inl (Raised (if is_Exception fe then e else fe))"
    and "snd (snd (wrapper s key func w)) =
           (if is_Exception fe then logging (Fallback_failed key fe) w3 else w3)"
    unfolding w o using fb r by (simp_all add: attempt_fallback_def prepared_fields)
qed

lemma guarded_eq:
  "guarded = (FailoverStrategy_init 3 60 ''exponential'')
               \<lparr>fallback_handlers := [''f'' \<mapsto> broken_fallback]\<rparr>"
  by (simp add: guarded_def register_fallback_def FailoverStrategy_init_def)

lemma guarded_call:
  "wrapper guarded ''f'' primary_down quiet_world =
     (Inl (Raised (Exception ''primary'')),
      guarded\<lparr>circuit_state := [''f'' \<mapsto> CB_CLOSED], failures := [''f'' \<mapsto> 1],
        last_failure_time := [''f'' \<mapsto> 0]\<rparr>,
      quiet_world\<lparr>calls := 1,
        log := [Failure_in ''f'' (Exception ''primary''),
                Fallback_failed ''f'' (Exception ''fallback'')]\<rparr>)"
  by (simp add: guarded_eq FailoverStrategy_init_def wrapper_def initialize_state_def
        circuit_blocked_def move_to_half_open_def on_failure_def track_failure_def
        failure_log_def attempt_fallback_def primary_down_def broken_fallback_def counted_def
        quiet_world_def logging_def Let_def)

section \<open>Properties\<close>

text \<open>
  C1. While the circuit is OPEN and less than the reset timeout has passed since the last
  failure, a call does not invoke the operation. \<^verbatim>\<open>RetryHandler.retry\<close> raises its
  circuit-open error and leaves the handler and the environment (with the call counter of
  a test double) as they were; the wrapper of \<^verbatim>\<open>FailoverStrategy\<close> returns what the
  fallback registered for the key returns or raises, else raises its circuit-open error,
  and leaves the strategy as it was: the operation does not occur in the result. So after
  any number of such calls the handler and the strategy are unchanged, and each of these
  calls is blocked in the same way.
\<close>

theorem C1_open_circuit_never_invokes_operation:
  "(rh_circuit_state h = OPEN \<and> rh_last_failure_time h = Some t
      \<and> clock w - t < rh_circuit_reset_timeout h
    \<longrightarrow> retry h func w =
          (Inl (RetryHandlerError ''Circuit is open. Requests are currently blocked.'' WARNING []),
           h, w))
   \<and> (rh_circuit_state h = OPEN \<and> rh_last_failure_time h = Some t
        \<and> (\<forall>(f, w') \<in> set cs. clock w' - t < rh_circuit_reset_timeout h)
      \<longrightarrow> retry_calls h cs = h)
   \<and> (circuit_state s key = Some CB_OPEN
        \<and> clock v - (case last_failure_time s key of None \<Rightarrow> 0 | Some t' \<Rightarrow> t') < reset_timeout s
      \<longrightarrow> wrapper s key op v =
            (case fallback_handlers s key of
               None \<Rightarrow> (Inl (RuntimeError (''Circuit breaker open for '' @ key)), s, v)
             | Some fallback \<Rightarrow>
                 (case fallback (logging (Circuit_open_using_fallback key) v) of
                    (Inr r, v1) \<Rightarrow> (Inr r, s, v1)
                  | (Inl fe, v1) \<Rightarrow> (Inl (Raised fe), s, v1))))
   \<and> (circuit_state s key = Some CB_OPEN
        \<and> (\<forall>(f, v') \<in> set ds.
              clock v' - (case last_failure_time s key of None \<Rightarrow> 0 | Some t' \<Rightarrow> t') < reset_timeout s)
      \<longrightarrow> failover_run s (map (\<lambda>(f, v'). Call key f v') ds) = s)"
proof (intro conjI impI)
  assume "rh_circuit_state h = OPEN \<and> rh_last_failure_time h = Some t
      \<and> clock w - t < rh_circuit_reset_timeout h"
  then show "retry h func w =
          (Inl (RetryHandlerError ''Circuit is open. Requests are currently blocked.'' WARNING []),
           h, w)"
    by (simp add: retry_open_blocked)
next
  assume "rh_circuit_state h = OPEN \<and> rh_last_failure_time h = Some t
        \<and> (\<forall>(f, w') \<in> set cs. clock w' - t < rh_circuit_reset_timeout h)"
  then show "retry_calls h cs = h"
    using retry_calls_open_blocked [of h t cs] by blast
next
  assume a: "circuit_state s key = Some CB_OPEN
        \<and> clock v - (case last_failure_time s key of None \<Rightarrow> 0 | Some t' \<Rightarrow> t') < reset_timeout s"
  then have "wrapper s key op v = circuit_still_open s key v"
    by (simp add: wrapper_blocked)
  then show "wrapper s key op v =
            (case fallback_handlers s key of
               None \<Rightarrow> (Inl (RuntimeError (''Circuit breaker open for '' @ key)), s, v)
             | Some fallback \<Rightarrow>
                 (case fallback (logging (Circuit_open_using_fallback key) v) of
                    (Inr r, v1) \<Rightarrow> (Inr r, s, v1)
                  | (Inl fe, v1) \<Rightarrow> (Inl (Raised fe), s, v1)))"
    by (simp add: circuit_still_open_def split: option.splits)
next
  assume "circuit_state s key = Some CB_OPEN
        \<and> (\<forall>(f, v') \<in> set ds.
              clock v' - (case last_failure_time s key of None \<Rightarrow> 0 | Some t' \<Rightarrow> t') < reset_timeout s)"
  then show "failover_run s (map (\<lambda>(f, v'). Call key f v') ds) = s"
    using failover_run_blocked [of s key ds] by blast
qed

theorem C1_witness:
  "rh_circuit_state tripped_handler = OPEN
   \<and> rh_last_failure_time tripped_handler = Some 0
   \<and> clock (test_world 10) - 0 < rh_circuit_reset_timeout tripped_handler
   \<and> retry tripped_handler failing (test_world 10) =
       (Inl (RetryHandlerError ''Circuit is open. Requests are currently blocked.'' WARNING []),
        tripped_handler, test_world 10)
   \<and> calls (snd (snd (retry tripped_handler failing (test_world 10)))) = 0
   \<and> retry_calls tripped_handler [(failing, test_world 10), (succeeding, test_world 29)]
       = tripped_handler
   \<and> circuit_state tripped_failover ''f'' = Some CB_OPEN
   \<and> clock (test_world 10) - 0 < reset_timeout tripped_failover
   \<and> wrapper tripped_failover ''f'' failing (test_world 10) =
       (Inl (RuntimeError ''Circuit breaker open for f''), tripped_failover, test_world 10)
   \<and> wrapper (register_fallback tripped_failover ''f'' succeeding) ''f'' failing (test_world 10) =
       (Inr 7, register_fallback tripped_failover ''f'' succeeding,
        (test_world 10)\<lparr>log := [Circuit_open_using_fallback ''f''], calls := 1\<rparr>)
   \<and> failover_run tripped_failover
        (map (\<lambda>(f, v'). Call ''f'' f v') [(failing, test_world 10), (succeeding, test_world 59)])
       = tripped_failover"
proof -
  let ?cs = "[(failing, test_world 10), (succeeding, test_world 29)]"
  let ?ds = "[(failing, test_world 10), (succeeding, test_world 59)]"
  let ?s = "register_fallback tripped_failover ''f'' succeeding"
  have h: "rh_circuit_state tripped_handler = OPEN"
    "rh_last_failure_time tripped_handler = Some 0"
    "clock (test_world 10) - 0 < rh_circuit_reset_timeout tripped_handler"
    "\<forall>(f, w') \<in> set ?cs. clock w' - 0 < rh_circuit_reset_timeout tripped_handler"
    by (simp_all add: tripped_handler_eq RetryHandler_init_def test_world_def)
  have s: "circuit_state tripped_failover ''f'' = Some CB_OPEN"
    "last_failure_time tripped_failover ''f'' = Some 0"
    "fallback_handlers tripped_failover ''f'' = None"
    "reset_timeout tripped_failover = 60"
    by (simp_all add: tripped_failover_eq FailoverStrategy_init_def)
  have s': "circuit_state ?s ''f'' = Some CB_OPEN"
    "last_failure_time ?s ''f'' = Some 0"
    "fallback_handlers ?s ''f'' = Some succeeding"
    "reset_timeout ?s = 60"
    by (simp_all add: register_fallback_def s)
  have t: "clock (test_world 10) = 10" "clock (test_world 59) = 59"
    by (simp_all add: test_world_def)
  note main = C1_open_circuit_never_invokes_operation
      [of tripped_handler 0 "test_world 10" failing ?cs tripped_failover "''f''" "test_world 10"
          failing ?ds]
  note fb = C1_open_circuit_never_invokes_operation
      [of tripped_handler 0 "test_world 10" failing "[]" ?s "''f''" "test_world 10" failing "[]"]
  have 1: "retry tripped_handler failing (test_world 10) =
       (Inl (RetryHandlerError ''Circuit is open. Requests are currently blocked.'' WARNING []),
        tripped_handler, test_world 10)"
    using main h by blast
  have 2: "retry_calls tripped_handler ?cs = tripped_handler"
    using main h by blast
  have 3: "wrapper tripped_failover ''f'' failing (test_world 10) =
       (Inl (RuntimeError ''Circuit breaker open for f''), tripped_failover, test_world 10)"
    using main by (simp add: s t)
  have 4: "failover_run tripped_failover (map (\<lambda>(f, v'). Call ''f'' f v') ?ds) = tripped_failover"
    using main by (simp add: s t del: failover_run.simps)
  have 5: "wrapper ?s ''f'' failing (test_world 10) =
       (Inr 7, ?s, (test_world 10)\<lparr>log := [Circuit_open_using_fallback ''f''], calls := 1\<rparr>)"
  proof -
    have "succeeding (logging (Circuit_open_using_fallback ''f'') (test_world 10)) =
            (Inr 7, (test_world 10)\<lparr>log := [Circuit_open_using_fallback ''f''], calls := 1\<rparr>)"
      by (simp add: succeeding_def counted_def logging_def test_world_def)
    with fb show ?thesis by (simp add: s' t)
  qed
  from 1 have 6: "calls (snd (snd (retry tripped_handler failing (test_world 10)))) = 0"
    by (simp add: test_world_def)
  from h s t 1 2 3 4 5 6 show ?thesis by simp
qed

text \<open>
  C2. With a failure threshold of 3 and an operation that always raises a retryable
  exception, a new circuit opens at the third failure, not before. Within one call of
  \<^verbatim>\<open>RetryHandler.retry\<close> with at least three attempts: the third attempt starts with
  the circuit CLOSED and two failures counted, and its failure ends the call with the
  circuit OPEN, three failures counted, the time of last failure read from the clock then,
  and three invocations. Across calls with a single attempt each (\<^verbatim>\<open>max_retries = 1\<close>,
  and the wrapper of \<^verbatim>\<open>FailoverStrategy\<close>, which never retries): CLOSED after the first
  and the second call, OPEN after the third, with the time of last failure that the third
  call read.
\<close>

theorem C2_circuit_opens_at_third_failure:
  "(h0 = RetryHandler_init mr bd md bs j 3 rt ro \<and> 3 \<le> mr
      \<and> always_raises (rh_retry_on h0) func
    \<longrightarrow> (\<exists>e1 w1 e2 w2 e3 w3.
           func w = (Inl e1, w1)
           \<and> func (backoff_wait (h0\<lparr>rh_failure_count := 1\<rparr>) 1 e1 w1) = (Inl e2, w2)
           \<and> func (backoff_wait (h0\<lparr>rh_failure_count := 2\<rparr>) 2 e2 w2) = (Inl e3, w3)
           \<and> retry h0 func w =
               retry_loop (h0\<lparr>rh_failure_count := 2\<rparr>) func [3..mr]
                 (backoff_wait (h0\<lparr>rh_failure_count := 2\<rparr>) 2 e2 w2)
           \<and> rh_circuit_state (h0\<lparr>rh_failure_count := 2\<rparr>) = CLOSED
           \<and> retry h0 func w =
               (Inl (RetryHandlerError ''Circuit breaker opened after 3 consecutive failures''
                       CRITICAL [(''last_error'', Str e3)]),
                h0\<lparr>rh_failure_count := 3, rh_circuit_state := OPEN,
                   rh_last_failure_time := Some (clock w3)\<rparr>,
                w3)
           \<and> (\<forall>f. func = counted f \<longrightarrow> calls w3 = calls w + 3)))
   \<and> (h1 = RetryHandler_init 1 bd' md' bs' j' 3 rt' ro'
        \<and> always_raises (rh_retry_on h1) g
      \<longrightarrow> (\<exists>e1 w1 e2 w2 e3 w3.
           g wa = (Inl e1, w1) \<and> g wb = (Inl e2, w2) \<and> g wc = (Inl e3, w3)
           \<and> retry h1 g wa =
               (Inl (RetryHandlerError ''Failed after 1 attempts'' ERROR [(''last_error'', Str e1)]),
                h1\<lparr>rh_failure_count := 1\<rparr>, w1)
           \<and> rh_circuit_state (h1\<lparr>rh_failure_count := 1\<rparr>) = CLOSED
           \<and> retry (h1\<lparr>rh_failure_count := 1\<rparr>) g wb =
               (Inl (RetryHandlerError ''Failed after 1 attempts'' ERROR [(''last_error'', Str e2)]),
                h1\<lparr>rh_failure_count := 2\<rparr>, w2)
           \<and> rh_circuit_state (h1\<lparr>rh_failure_count := 2\<rparr>) = CLOSED
           \<and> retry (h1\<lparr>rh_failure_count := 2\<rparr>) g wc =
               (Inl (RetryHandlerError ''Circuit breaker opened after 3 consecutive failures''
                       CRITICAL [(''last_error'', Str e3)]),
                h1\<lparr>rh_failure_count := 3, rh_circuit_state := OPEN,
                   rh_last_failure_time := Some (clock w3)\<rparr>,
                w3)))
   \<and> (max_failures s0 = 3 \<and> circuit_state s0 key = None \<and> always_raises is_Exception op
      \<longrightarrow> get_circuit_status (failover_run s0 [Call key op va]) key =
            \<lparr>status_state = CB_CLOSED, status_failures = 1,
             status_last_failure_time = Some (clock va)\<rparr>
          \<and> get_circuit_status (failover_run s0 [Call key op va, Call key op vb]) key =
            \<lparr>status_state = CB_CLOSED, status_failures = 2,
             status_last_failure_time = Some (clock vb)\<rparr>
          \<and> get_circuit_status
              (failover_run s0 [Call key op va, Call key op vb, Call key op vc]) key =
            \<lparr>status_state = CB_OPEN, status_failures = 3,
             status_last_failure_time = Some (clock vc)\<rparr>)"
  using trip_within_one_call [of h0 mr bd md bs j rt ro func w]
    trip_across_calls [of h1 bd' md' bs' j' rt' ro' g wa wb wc]
    failover_trip_across_calls [of s0 key op va vb vc]
  by blast

theorem C2_witness:
  "patient_handler 5 3 = RetryHandler_init 5 1 60 CONSTANT 0 3 30 None \<and> (3::int) \<le> 5
   \<and> always_raises (rh_retry_on (patient_handler 5 3)) failing
   \<and> retry (patient_handler 5 3) failing (test_world 0) =
       (Inl (RetryHandlerError ''Circuit breaker opened after 3 consecutive failures'' CRITICAL
               [(''last_error'', Str (Exception ()))]),
        (patient_handler 5 3)\<lparr>rh_failure_count := 3, rh_circuit_state := OPEN,
           rh_last_failure_time := Some 2\<rparr>,
        \<lparr>clock = 2, random_values = (\<lambda>_. 0), random_index = 2,
         log = [Retry_attempt 1 (Exception ()) 1, Retry_attempt 2 (Exception ()) 1],
         calls = 3\<rparr>)
   \<and> patient_handler 1 3 = RetryHandler_init 1 1 60 CONSTANT 0 3 30 None
   \<and> always_raises (rh_retry_on (patient_handler 1 3)) failing
   \<and> rh_circuit_state (fst (snd (retry (patient_handler 1 3) failing (test_world 0)))) = CLOSED
   \<and> rh_circuit_state
        (retry_calls (patient_handler 1 3) [(failing, test_world 0), (failing, test_world 5)])
       = CLOSED
   \<and> retry_calls (patient_handler 1 3)
        [(failing, test_world 0), (failing, test_world 5), (failing, test_world 9)]
       = (patient_handler 1 3)\<lparr>rh_failure_count := 3, rh_circuit_state := OPEN,
            rh_last_failure_time := Some 9\<rparr>
   \<and> max_failures (FailoverStrategy_init 3 60 ''exponential'' :: (unit, nat) FailoverStrategy) = 3
   \<and> circuit_state (FailoverStrategy_init 3 60 ''exponential'' :: (unit, nat) FailoverStrategy) ''f''
       = None
   \<and> always_raises is_Exception failing
   \<and> get_circuit_status
        (failover_run (FailoverStrategy_init 3 60 ''exponential'')
           [Call ''f'' failing (test_world 0), Call ''f'' failing (test_world 5)]) ''f''
       = \<lparr>status_state = CB_CLOSED, status_failures = 2, status_last_failure_time = Some 5\<rparr>
   \<and> get_circuit_status
        (failover_run (FailoverStrategy_init 3 60 ''exponential'')
           [Call ''f'' failing (test_world 0), Call ''f'' failing (test_world 5),
            Call ''f'' failing (test_world 9)]) ''f''
       = \<lparr>status_state = CB_OPEN, status_failures = 3, status_last_failure_time = Some 9\<rparr>"
proof -
  let ?h5 = "patient_handler 5 3" and ?h1 = "patient_handler 1 3"
  let ?s0 = "FailoverStrategy_init 3 60 ''exponential'' :: (unit, nat) FailoverStrategy"
  have r5: "always_raises (rh_retry_on ?h5) failing" and r1: "always_raises (rh_retry_on ?h1) failing"
    by (simp_all add: patient_handler_fields failing_always_raises)
  have d5: "?h5 = RetryHandler_init 5 1 60 CONSTANT 0 3 30 None"
    and d1: "?h1 = RetryHandler_init 1 1 60 CONSTANT 0 3 30 None"
    by (simp_all add: patient_handler_def)
  have s0: "max_failures ?s0 = 3" "circuit_state ?s0 ''f'' = None"
    by (simp_all add: FailoverStrategy_init_def)
  note inst = C2_circuit_opens_at_third_failure
      [of ?h5 5 1 60 CONSTANT 0 30 None failing "test_world 0"
          ?h1 1 60 CONSTANT 0 30 None failing "test_world 0" "test_world 5" "test_world 9"
          ?s0 "''f''" failing "test_world 0" "test_world 5" "test_world 9"]
  have p1: "?h5 = RetryHandler_init 5 1 60 CONSTANT 0 3 30 None \<and> (3::int) \<le> 5
      \<and> always_raises (rh_retry_on ?h5) failing"
    using d5 r5 by simp
  from inst [THEN conjunct1, THEN mp, OF p1]
  obtain e1 w1 e2 w2 e3 w3 where
    a: "failing (test_world 0) = (Inl e1, w1)"
       "failing (backoff_wait (?h5\<lparr>rh_failure_count := 1\<rparr>) 1 e1 w1) = (Inl e2, w2)"
       "failing (backoff_wait (?h5\<lparr>rh_failure_count := 2\<rparr>) 2 e2 w2) = (Inl e3, w3)"
    and b: "retry ?h5 failing (test_world 0) =
               (Inl (RetryHandlerError ''Circuit breaker opened after 3 consecutive failures''
                       CRITICAL [(''last_error'', Str e3)]),
                ?h5\<lparr>rh_failure_count := 3, rh_circuit_state := OPEN,
                   rh_last_failure_time := Some (clock w3)\<rparr>,
                w3)"
    by blast
  from a have "e3 = Exception () \<and> w3 = \<lparr>clock = 2, random_values = (\<lambda>_. 0), random_index = 2,
         log = [Retry_attempt 1 (Exception ()) 1, Retry_attempt 2 (Exception ()) 1],
         calls = 3\<rparr>"
    by (auto simp: failing_apply patient_backoff_wait test_world_def)
  with b have 1: "retry ?h5 failing (test_world 0) =
       (Inl (RetryHandlerError ''Circuit breaker opened after 3 consecutive failures'' CRITICAL
               [(''last_error'', Str (Exception ()))]),
        ?h5\<lparr>rh_failure_count := 3, rh_circuit_state := OPEN, rh_last_failure_time := Some 2\<rparr>,
        \<lparr>clock = 2, random_values = (\<lambda>_. 0), random_index = 2,
         log = [Retry_attempt 1 (Exception ()) 1, Retry_attempt 2 (Exception ()) 1],
         calls = 3\<rparr>)"
    by simp
  have p2: "?h1 = RetryHandler_init 1 1 60 CONSTANT 0 3 30 None
      \<and> always_raises (rh_retry_on ?h1) failing"
    using d1 r1 by simp
  from inst [THEN conjunct2, THEN conjunct1, THEN mp, OF p2]
  obtain e1 w1 e2 w2 e3 w3 where
    c: "failing (test_world 9) = (Inl e3, w3)"
    and d: "retry ?h1 failing (test_world 0) =
               (Inl (RetryHandlerError ''Failed after 1 attempts'' ERROR [(''last_error'', Str e1)]),
                ?h1\<lparr>rh_failure_count := 1\<rparr>, w1)"
       "retry (?h1\<lparr>rh_failure_count := 1\<rparr>) failing (test_world 5) =
               (Inl (RetryHandlerError ''Failed after 1 attempts'' ERROR [(''last_error'', Str e2)]),
                ?h1\<lparr>rh_failure_count := 2\<rparr>, w2)"
       "retry (?h1\<lparr>rh_failure_count := 2\<rparr>) failing (test_world 9) =
               (Inl (RetryHandlerError ''Circuit breaker opened after 3 consecutive failures''
                       CRITICAL [(''last_error'', Str e3)]),
                ?h1\<lparr>rh_failure_count := 3, rh_circuit_state := OPEN,
                   rh_last_failure_time := Some (clock w3)\<rparr>,
                w3)"
    by blast
  from c have "clock w3 = 9" by (auto simp: failing_apply test_world_def)
  with d have 2:
    "rh_circuit_state (fst (snd (retry ?h1 failing (test_world 0)))) = CLOSED"
    "rh_circuit_state (retry_calls ?h1 [(failing, test_world 0), (failing, test_world 5)]) = CLOSED"
    "retry_calls ?h1 [(failing, test_world 0), (failing, test_world 5), (failing, test_world 9)]
       = ?h1\<lparr>rh_failure_count := 3, rh_circuit_state := OPEN, rh_last_failure_time := Some 9\<rparr>"
    by (simp_all add: patient_handler_fields)
  have p3: "max_failures ?s0 = 3 \<and> circuit_state ?s0 ''f'' = None \<and> always_raises is_Exception failing"
    using s0 failing_always_raises by simp
  from inst [THEN conjunct2, THEN conjunct2, THEN mp, OF p3]
  have 3: "get_circuit_status
        (failover_run ?s0 [Call ''f'' failing (test_world 0), Call ''f'' failing (test_world 5)]) ''f''
       = \<lparr>status_state = CB_CLOSED, status_failures = 2, status_last_failure_time = Some 5\<rparr>"
    "get_circuit_status
        (failover_run ?s0 [Call ''f'' failing (test_world 0), Call ''f'' failing (test_world 5),
            Call ''f'' failing (test_world 9)]) ''f''
       = \<lparr>status_state = CB_OPEN, status_failures = 3, status_last_failure_time = Some 9\<rparr>"
    by (simp_all add: test_world_def del: failover_run.simps)
  from p1 p2 p3 1 2 3 show ?thesis by blast
qed

text \<open>
  C3. A retryable failure of an attempt that is not the last one, with the failure count
  still below the threshold, does not end the call of \<^verbatim>\<open>retry\<close>: the loop goes on with the
  next attempt, after the failure was counted, the attempt logged and the computed delay
  slept. A call that ends in an error ends in the circuit-open error of a blocked call,
  in the circuit breaker error with the circuit opened at its threshold, in the error of
  the last attempt after \<^verbatim>\<open>max_retries\<close> invocations, or in an exception that is not
  retryable: a retryable exception never reaches the caller from an earlier attempt. (The
  wrapper of \<^verbatim>\<open>FailoverStrategy\<close> makes a single attempt per call.)
\<close>

theorem C3_retryable_failures_surface_only_at_the_end:
  "(func w = (Inl e, w1) \<and> rh_retry_on h e
      \<and> rh_failure_count h + 1 < rh_circuit_failure_threshold h \<and> rh_max_retries h \<noteq> attempt
    \<longrightarrow> retry_loop h func (attempt # rest) w =
          retry_loop (h\<lparr>rh_failure_count := rh_failure_count h + 1\<rparr>) func rest
            (backoff_wait (h\<lparr>rh_failure_count := rh_failure_count h + 1\<rparr>) attempt e w1)
        \<and> clock (backoff_wait (h\<lparr>rh_failure_count := rh_failure_count h + 1\<rparr>) attempt e w1) =
            clock w1
            + fst (calculate_delay (h\<lparr>rh_failure_count := rh_failure_count h + 1\<rparr>) attempt w1)
        \<and> log (backoff_wait (h\<lparr>rh_failure_count := rh_failure_count h + 1\<rparr>) attempt e w1) =
            log w1 @
            [Retry_attempt attempt e
               (fst (calculate_delay (h\<lparr>rh_failure_count := rh_failure_count h + 1\<rparr>) attempt w1))])
   \<and> (retry g (counted f) v = (Inl err, g', v')
      \<longrightarrow> (err = RetryHandlerError ''Circuit is open. Requests are currently blocked.'' WARNING []
             \<and> g' = g \<and> v' = v)
          \<or> (err = TypeError \<and> rh_circuit_state g = OPEN \<and> rh_last_failure_time g = None)
          \<or> surfaced g v err g' v' (rh_max_retries g))"
  using retry_loop_retried [of func w e w1 h attempt rest]
    backoff_wait_clock [of "h\<lparr>rh_failure_count := rh_failure_count h + 1\<rparr>" attempt e w1]
    backoff_wait_log [of "h\<lparr>rh_failure_count := rh_failure_count h + 1\<rparr>" attempt e w1]
    retry_surfaced [of g f v err g' v']
  by blast

theorem C3_witness:
  "failing (test_world 0) = (Inl (Exception ()), (test_world 0)\<lparr>calls := 1\<rparr>)
   \<and> rh_retry_on (patient_handler 3 5) (Exception ())
   \<and> rh_failure_count (patient_handler 3 5) + 1 < rh_circuit_failure_threshold (patient_handler 3 5)
   \<and> rh_max_retries (patient_handler 3 5) \<noteq> 1
   \<and> retry_loop (patient_handler 3 5) failing [1, 2, 3] (test_world 0) =
       retry_loop ((patient_handler 3 5)\<lparr>rh_failure_count := 1\<rparr>) failing [2, 3]
         \<lparr>clock = 1, random_values = (\<lambda>_. 0), random_index = 1,
          log = [Retry_attempt 1 (Exception ()) 1], calls = 1\<rparr>
   \<and> retry (patient_handler 3 5) failing (test_world 0) =
       (Inl (RetryHandlerError ''Failed after 3 attempts'' ERROR
               [(''last_error'', Str (Exception ()))]),
        (patient_handler 3 5)\<lparr>rh_failure_count := 3\<rparr>,
        \<lparr>clock = 2, random_values = (\<lambda>_. 0), random_index = 2,
         log = [Retry_attempt 1 (Exception ()) 1, Retry_attempt 2 (Exception ()) 1],
         calls = 3\<rparr>)
   \<and> surfaced (patient_handler 3 5) (test_world 0)
        (RetryHandlerError ''Failed after 3 attempts'' ERROR [(''last_error'', Str (Exception ()))])
        ((patient_handler 3 5)\<lparr>rh_failure_count := 3\<rparr>)
        \<lparr>clock = 2, random_values = (\<lambda>_. 0), random_index = 2,
         log = [Retry_attempt 1 (Exception ()) 1, Retry_attempt 2 (Exception ()) 1],
         calls = 3\<rparr>
        3"
proof -
  let ?h = "patient_handler 3 5"
  let ?w1 = "(test_world 0)\<lparr>calls := 1\<rparr>"
  let ?err = "RetryHandlerError ''Failed after 3 attempts'' ERROR [(''last_error'', Str (Exception ()))]"
  let ?v' = "\<lparr>clock = 2, random_values = (\<lambda>_. 0), random_index = 2,
         log = [Retry_attempt 1 (Exception ()) 1, Retry_attempt 2 (Exception ()) 1],
         calls = 3\<rparr> :: unit world"
  let ?f = "(\<lambda>w. (Inl (Exception ()), w)) :: (unit, nat) operation"
  have f: "failing = counted ?f" by (simp add: failing_def)
  have a: "failing (test_world 0) = (Inl (Exception ()), ?w1)"
    "rh_retry_on ?h (Exception ())"
    "rh_failure_count ?h + 1 < rh_circuit_failure_threshold ?h"
    "rh_max_retries ?h \<noteq> 1"
    by (simp_all add: failing_apply patient_handler_fields test_world_def)
  have b: "retry ?h (counted ?f) (test_world 0)
             = (Inl ?err, ?h\<lparr>rh_failure_count := 3\<rparr>, ?v')"
    using exhausted_example by (simp add: f)
  note inst = C3_retryable_failures_surface_only_at_the_end
      [of failing "test_world 0" "Exception ()" ?w1 ?h 1 "[2, 3]"
          ?h ?f "test_world 0" ?err "?h\<lparr>rh_failure_count := 3\<rparr>" ?v']
  from inst a have 1: "retry_loop ?h failing [1, 2, 3] (test_world 0) =
          retry_loop (?h\<lparr>rh_failure_count := rh_failure_count ?h + 1\<rparr>) failing [2, 3]
            (backoff_wait (?h\<lparr>rh_failure_count := rh_failure_count ?h + 1\<rparr>) 1 (Exception ()) ?w1)"
    by blast
  have 2: "backoff_wait (?h\<lparr>rh_failure_count := rh_failure_count ?h + 1\<rparr>) 1 (Exception ()) ?w1
           = \<lparr>clock = 1, random_values = (\<lambda>_. 0), random_index = 1,
              log = [Retry_attempt 1 (Exception ()) 1], calls = 1\<rparr>"
    by (simp add: patient_backoff_wait test_world_def)
  from inst b have "(?err = RetryHandlerError ''Circuit is open. Requests are currently blocked.'' WARNING []
             \<and> ?h\<lparr>rh_failure_count := 3\<rparr> = ?h \<and> ?v' = test_world 0)
          \<or> (?err = TypeError \<and> rh_circuit_state ?h = OPEN \<and> rh_last_failure_time ?h = None)
          \<or> surfaced ?h (test_world 0) ?err (?h\<lparr>rh_failure_count := 3\<rparr>) ?v' (rh_max_retries ?h)"
    by blast
  then have 3: "surfaced ?h (test_world 0) ?err (?h\<lparr>rh_failure_count := 3\<rparr>) ?v' 3"
    by (simp add: patient_handler_fields)
  from 1 2 have 4: "retry_loop ?h failing [1, 2, 3] (test_world 0) =
       retry_loop (?h\<lparr>rh_failure_count := 1\<rparr>) failing [2, 3]
         \<lparr>clock = 1, random_values = (\<lambda>_. 0), random_index = 1,
          log = [Retry_attempt 1 (Exception ()) 1], calls = 1\<rparr>"
    by (simp add: patient_handler_fields del: retry_loop.simps)
  from a 4 exhausted_example 3 show ?thesis by blast
qed

text \<open>
  C4. A handler or strategy reached from its constructor whose circuit is OPEN, called when
  at least the reset timeout has passed since the last failure (and with
  \<^verbatim>\<open>max_retries\<close> at least 1, as the spec requires of \<^verbatim>\<open>max_attempts\<close>): the call moves
  the circuit to HALF_OPEN and runs the attempts from there; the operation is invoked
  exactly once. If it returns, the circuit is CLOSED, the failure count is 0 and the
  result is returned. If it raises an exception that counts as a failure, the circuit is
  OPEN again with the time of last failure set anew, and the call ends without a second
  invocation: \<^verbatim>\<open>RetryHandler.retry\<close> raises its circuit-breaker error, and the wrapper of
  \<^verbatim>\<open>FailoverStrategy\<close> turns to the fallback or re-raises.
\<close>

theorem C4_half_open_probe:
  "(h = retry_calls (RetryHandler_init mr bd md bs j ft rt ro) cs
      \<and> rh_circuit_state h = OPEN \<and> rh_last_failure_time h = Some t
      \<and> clock w - t \<ge> rh_circuit_reset_timeout h \<and> 1 \<le> rh_max_retries h
    \<longrightarrow> retry h func w =
          retry_loop (h\<lparr>rh_circuit_state := HALF_OPEN\<rparr>) func [1..rh_max_retries h] w
        \<and> calls (snd (snd (retry h (counted f) w))) = Suc (calls w)
        \<and> (\<forall>r w1. func w = (Inr r, w1) \<longrightarrow>
              retry h func w =
                (Inr (Some r), h\<lparr>rh_circuit_state := CLOSED, rh_failure_count := 0\<rparr>, w1))
        \<and> (\<forall>e w1. func w = (Inl e, w1) \<and> rh_retry_on h e \<longrightarrow>
              retry h func w =
                (Inl (RetryHandlerError
                        (''Circuit breaker opened after '' @ str_int (rh_failure_count h + 1)
                           @ '' consecutive failures'')
                        CRITICAL [(''last_error'', Str e)]),
                 h\<lparr>rh_failure_count := rh_failure_count h + 1, rh_circuit_state := OPEN,
                   rh_last_failure_time := Some (clock w1)\<rparr>, w1)))
   \<and> (s = failover_run (FailoverStrategy_init mf rt' bs') evs
        \<and> circuit_state s key = Some CB_OPEN
        \<and> clock v - (case last_failure_time s key of None \<Rightarrow> 0 | Some t' \<Rightarrow> t') \<ge> reset_timeout s
      \<longrightarrow> (\<forall>r v1. op v = (Inr r, v1) \<longrightarrow>
              wrapper s key op v =
                (Inr r,
                 s\<lparr>circuit_state := (circuit_state s)(key \<mapsto> CB_CLOSED),
                   failures := (failures s)(key \<mapsto> 0)\<rparr>, v1))
          \<and> (\<forall>e v1. op v = (Inl e, v1) \<and> is_Exception e \<longrightarrow>
                (\<exists>n \<ge> max_failures s. failures s key = Some n
                   \<and> wrapper s key op v =
                       attempt_fallback
                         (s\<lparr>failures := (failures s)(key \<mapsto> n + 1),
                            last_failure_time := (last_failure_time s)(key \<mapsto> clock v),
                            circuit_state := (circuit_state s)(key \<mapsto> CB_OPEN)\<rparr>)
                         key e
                         (logging (Circuit_breaker_opened key) (logging (Failure_in key e) v1)))))"
proof (intro conjI impI)
  assume a: "h = retry_calls (RetryHandler_init mr bd md bs j ft rt ro) cs
      \<and> rh_circuit_state h = OPEN \<and> rh_last_failure_time h = Some t
      \<and> clock w - t \<ge> rh_circuit_reset_timeout h \<and> 1 \<le> rh_max_retries h"
  let ?h = "h\<lparr>rh_circuit_state := HALF_OPEN\<rparr>"
  from a have reach: "h = retry_calls (RetryHandler_init mr bd md bs j ft rt ro) cs"
    and st: "rh_circuit_state h = OPEN" and lf: "rh_last_failure_time h = Some t"
    and el: "clock w - t \<ge> rh_circuit_reset_timeout h" and mx: "1 \<le> rh_max_retries h"
    by blast+
  have "circuit_consistent h"
    unfolding reach by (rule retry_calls_consistent) (rule init_consistent)
  with st have count: "rh_failure_count ?h + 1 \<ge> rh_circuit_failure_threshold ?h"
    by (simp add: circuit_consistent_def)
  from mx have up: "[1..rh_max_retries h] = 1 # [2..rh_max_retries h]"
    by (rule upto_from_1)
  have r: "\<And>g. retry h g w = retry_loop ?h g (1 # [2..rh_max_retries h]) w"
    using st lf el by (simp add: retry_timeout_passed up del: retry_loop.simps)
  show "retry h func w = retry_loop ?h func [1..rh_max_retries h] w"
    using r up by (simp del: retry_loop.simps)
  show "calls (snd (snd (retry h (counted f) w))) = Suc (calls w)"
    unfolding r using count by (rule probe_calls_once)
  show "\<forall>r w1. func w = (Inr r, w1) \<longrightarrow>
          retry h func w =
            (Inr (Some r), h\<lparr>rh_circuit_state := CLOSED, rh_failure_count := 0\<rparr>, w1)"
    unfolding r by (simp add: retry_loop_success)
  show "\<forall>e w1. func w = (Inl e, w1) \<and> rh_retry_on h e \<longrightarrow>
          retry h func w =
            (Inl (RetryHandlerError
                    (''Circuit breaker opened after '' @ str_int (rh_failure_count h + 1)
                       @ '' consecutive failures'')
                    CRITICAL [(''last_error'', Str e)]),
             h\<lparr>rh_failure_count := rh_failure_count h + 1, rh_circuit_state := OPEN,
               rh_last_failure_time := Some (clock w1)\<rparr>, w1)"
    unfolding r using count by (simp add: Let_def)
next
  assume a: "s = failover_run (FailoverStrategy_init mf rt' bs') evs
        \<and> circuit_state s key = Some CB_OPEN
        \<and> clock v - (case last_failure_time s key of None \<Rightarrow> 0 | Some t' \<Rightarrow> t') \<ge> reset_timeout s"
  then have reach: "s = failover_run (FailoverStrategy_init mf rt' bs') evs"
    and st: "circuit_state s key = Some CB_OPEN"
    and el: "clock v - (case last_failure_time s key of None \<Rightarrow> 0 | Some t' \<Rightarrow> t') \<ge> reset_timeout s"
    by blast+
  have "failover_consistent s"
    unfolding reach by (rule failover_run_consistent) (rule failover_init_consistent)
  with st obtain n where n: "failures s key = Some n" "n \<ge> max_failures s"
    by (auto simp: failover_consistent_def)
  from st have i: "initialize_state s key = s" by (simp add: initialize_state_present)
  from el have b: "\<not> circuit_blocked s key (clock v)" by (simp add: circuit_blocked_def)
  from st have m: "move_to_half_open s key = s\<lparr>circuit_state := (circuit_state s)(key \<mapsto> CB_HALF_OPEN)\<rparr>"
    by (simp add: move_to_half_open_def)
  show "\<forall>r v1. op v = (Inr r, v1) \<longrightarrow>
              wrapper s key op v =
                (Inr r,
                 s\<lparr>circuit_state := (circuit_state s)(key \<mapsto> CB_CLOSED),
                   failures := (failures s)(key \<mapsto> 0)\<rparr>, v1)"
    by (simp add: wrapper_def i b m on_success_def)
  show "\<forall>e v1. op v = (Inl e, v1) \<and> is_Exception e \<longrightarrow>
                (\<exists>n \<ge> max_failures s. failures s key = Some n
                   \<and> wrapper s key op v =
                       attempt_fallback
                         (s\<lparr>failures := (failures s)(key \<mapsto> n + 1),
                            last_failure_time := (last_failure_time s)(key \<mapsto> clock v),
                            circuit_state := (circuit_state s)(key \<mapsto> CB_OPEN)\<rparr>)
                         key e
                         (logging (Circuit_breaker_opened key) (logging (Failure_in key e) v1)))"
    using n by (simp add: wrapper_def i b m on_failure_def track_failure_def failure_log_def Let_def)
qed

theorem C4_witness:
  "tripped_handler = retry_calls (RetryHandler_init 1 1 60 CONSTANT 0 1 30 None) [(failing, test_world 0)]
   \<and> rh_circuit_state tripped_handler = OPEN \<and> rh_last_failure_time tripped_handler = Some 0
   \<and> clock (test_world 30) - 0 \<ge> rh_circuit_reset_timeout tripped_handler
   \<and> 1 \<le> rh_max_retries tripped_handler
   \<and> retry tripped_handler succeeding (test_world 30) =
        (Inr (Some 7), tripped_handler\<lparr>rh_circuit_state := CLOSED, rh_failure_count := 0\<rparr>,
         (test_world 30)\<lparr>calls := 1\<rparr>)
   \<and> retry tripped_handler failing (test_world 30) =
        (Inl (RetryHandlerError ''Circuit breaker opened after 2 consecutive failures'' CRITICAL
                [(''last_error'', Str (Exception ()))]),
         tripped_handler\<lparr>rh_failure_count := 2, rh_circuit_state := OPEN,
           rh_last_failure_time := Some 30\<rparr>,
         (test_world 30)\<lparr>calls := 1\<rparr>)
   \<and> tripped_failover =
        failover_run (FailoverStrategy_init 1 60 ''exponential'') [Call ''f'' failing (test_world 0)]
   \<and> circuit_state tripped_failover ''f'' = Some CB_OPEN
   \<and> clock (test_world 60)
        - (case last_failure_time tripped_failover ''f'' of None \<Rightarrow> 0 | Some t' \<Rightarrow> t')
       \<ge> reset_timeout tripped_failover
   \<and> wrapper tripped_failover ''f'' succeeding (test_world 60) =
        (Inr 7,
         tripped_failover\<lparr>circuit_state := (circuit_state tripped_failover)(''f'' \<mapsto> CB_CLOSED),
           failures := (failures tripped_failover)(''f'' \<mapsto> 0)\<rparr>,
         (test_world 60)\<lparr>calls := 1\<rparr>)
   \<and> wrapper tripped_failover ''f'' failing (test_world 60) =
        (Inl (Raised (Exception ())),
         tripped_failover\<lparr>failures := (failures tripped_failover)(''f'' \<mapsto> 2),
           last_failure_time := (last_failure_time tripped_failover)(''f'' \<mapsto> 60),
           circuit_state := (circuit_state tripped_failover)(''f'' \<mapsto> CB_OPEN)\<rparr>,
         (test_world 60)\<lparr>calls := 1,
           log := [Failure_in ''f'' (Exception ()), Circuit_breaker_opened ''f'']\<rparr>)"
proof -
  have reach: "tripped_handler =
      retry_calls (RetryHandler_init 1 1 60 CONSTANT 0 1 30 None) [(failing, test_world 0)]"
    by (simp add: tripped_handler_def)
  have h: "rh_circuit_state tripped_handler = OPEN" "rh_last_failure_time tripped_handler = Some 0"
    "clock (test_world 30) - 0 \<ge> rh_circuit_reset_timeout tripped_handler"
    "1 \<le> rh_max_retries tripped_handler"
    "rh_failure_count tripped_handler = 1" "rh_retry_on tripped_handler = is_Exception"
    by (simp_all add: tripped_handler_eq RetryHandler_init_def test_world_def)
  have reach': "tripped_failover =
      failover_run (FailoverStrategy_init 1 60 ''exponential'') [Call ''f'' failing (test_world 0)]"
    by (simp add: tripped_failover_def)
  have s: "circuit_state tripped_failover ''f'' = Some CB_OPEN"
    "clock (test_world 60)
        - (case last_failure_time tripped_failover ''f'' of None \<Rightarrow> 0 | Some t' \<Rightarrow> t')
       \<ge> reset_timeout tripped_failover"
    "failures tripped_failover ''f'' = Some 1"
    "fallback_handlers tripped_failover ''f'' = None"
    by (simp_all add: tripped_failover_eq FailoverStrategy_init_def test_world_def)
  have c: "clock (test_world 60) = 60" "calls (test_world 30) = 0" "calls (test_world 60) = 0"
    "log (test_world 60) = []"
    by (simp_all add: test_world_def)
  note ok = C4_half_open_probe
      [of tripped_handler 1 1 60 CONSTANT 0 1 30 None "[(failing, test_world 0)]" 0 "test_world 30"
          succeeding "\<lambda>w. (Inr (7::nat), w)"
          tripped_failover 1 60 "''exponential''" "[Call ''f'' failing (test_world 0)]" "''f''"
          "test_world 60" succeeding]
  note ko = C4_half_open_probe
      [of tripped_handler 1 1 60 CONSTANT 0 1 30 None "[(failing, test_world 0)]" 0 "test_world 30"
          failing "\<lambda>w. (Inl (Exception ()), w)"
          tripped_failover 1 60 "''exponential''" "[Call ''f'' failing (test_world 0)]" "''f''"
          "test_world 60" failing]
  have pre: "tripped_handler =
        retry_calls (RetryHandler_init 1 1 60 CONSTANT 0 1 30 None) [(failing, test_world 0)]
      \<and> rh_circuit_state tripped_handler = OPEN \<and> rh_last_failure_time tripped_handler = Some 0
      \<and> clock (test_world 30) - 0 \<ge> rh_circuit_reset_timeout tripped_handler
      \<and> 1 \<le> rh_max_retries tripped_handler"
    using reach h(1-4) by blast
  have pre': "tripped_failover =
        failover_run (FailoverStrategy_init 1 60 ''exponential'') [Call ''f'' failing (test_world 0)]
      \<and> circuit_state tripped_failover ''f'' = Some CB_OPEN
      \<and> clock (test_world 60)
          - (case last_failure_time tripped_failover ''f'' of None \<Rightarrow> 0 | Some t' \<Rightarrow> t')
         \<ge> reset_timeout tripped_failover"
    using reach' s(1,2) by blast
  have 1: "retry tripped_handler succeeding (test_world 30) =
        (Inr (Some 7), tripped_handler\<lparr>rh_circuit_state := CLOSED, rh_failure_count := 0\<rparr>,
         (test_world 30)\<lparr>calls := 1\<rparr>)"
  proof -
    from ok [THEN conjunct1, THEN mp, OF pre]
    have "\<forall>r w1. succeeding (test_world 30) = (Inr r, w1) \<longrightarrow>
            retry tripped_handler succeeding (test_world 30) =
              (Inr (Some r), tripped_handler\<lparr>rh_circuit_state := CLOSED, rh_failure_count := 0\<rparr>, w1)"
      by blast
    with succeeding_apply [of "test_world 30"] c show ?thesis by simp
  qed
  have 2: "retry tripped_handler failing (test_world 30) =
        (Inl (RetryHandlerError ''Circuit breaker opened after 2 consecutive failures'' CRITICAL
                [(''last_error'', Str (Exception ()))]),
         tripped_handler\<lparr>rh_failure_count := 2, rh_circuit_state := OPEN,
           rh_last_failure_time := Some 30\<rparr>,
         (test_world 30)\<lparr>calls := 1\<rparr>)"
  proof -
    from ko [THEN conjunct1, THEN mp, OF pre]
    have "\<forall>e w1. failing (test_world 30) = (Inl e, w1) \<and> rh_retry_on tripped_handler e \<longrightarrow>
              retry tripped_handler failing (test_world 30) =
                (Inl (RetryHandlerError
                        (''Circuit breaker opened after '' @ str_int (rh_failure_count tripped_handler + 1)
                           @ '' consecutive failures'')
                        CRITICAL [(''last_error'', Str e)]),
                 tripped_handler\<lparr>rh_failure_count := rh_failure_count tripped_handler + 1,
                   rh_circuit_state := OPEN, rh_last_failure_time := Some (clock w1)\<rparr>, w1)"
      by blast
    with failing_apply [of "test_world 30"] c h(5,6) show ?thesis
      by (simp add: str_int_examples test_world_def)
  qed
  have 3: "wrapper tripped_failover ''f'' succeeding (test_world 60) =
        (Inr 7,
         tripped_failover\<lparr>circuit_state := (circuit_state tripped_failover)(''f'' \<mapsto> CB_CLOSED),
           failures := (failures tripped_failover)(''f'' \<mapsto> 0)\<rparr>,
         (test_world 60)\<lparr>calls := 1\<rparr>)"
  proof -
    from ok [THEN conjunct2, THEN mp, OF pre']
    have "\<forall>r v1. succeeding (test_world 60) = (Inr r, v1) \<longrightarrow>
              wrapper tripped_failover ''f'' succeeding (test_world 60) =
                (Inr r,
                 tripped_failover\<lparr>circuit_state := (circuit_state tripped_failover)(''f'' \<mapsto> CB_CLOSED),
                   failures := (failures tripped_failover)(''f'' \<mapsto> 0)\<rparr>, v1)"
      by blast
    with succeeding_apply [of "test_world 60"] c show ?thesis by simp
  qed
  have 4: "wrapper tripped_failover ''f'' failing (test_world 60) =
        (Inl (Raised (Exception ())),
         tripped_failover\<lparr>failures := (failures tripped_failover)(''f'' \<mapsto> 2),
           last_failure_time := (last_failure_time tripped_failover)(''f'' \<mapsto> 60),
           circuit_state := (circuit_state tripped_failover)(''f'' \<mapsto> CB_OPEN)\<rparr>,
         (test_world 60)\<lparr>calls := 1,
           log := [Failure_in ''f'' (Exception ()), Circuit_breaker_opened ''f'']\<rparr>)"
  proof -
    from ko [THEN conjunct2, THEN mp, OF pre']
    have "\<forall>e v1. failing (test_world 60) = (Inl e, v1) \<and> is_Exception e \<longrightarrow>
                (\<exists>n \<ge> max_failures tripped_failover. failures tripped_failover ''f'' = Some n
                   \<and> wrapper tripped_failover ''f'' failing (test_world 60) =
                       attempt_fallback
                         (tripped_failover\<lparr>failures := (failures tripped_failover)(''f'' \<mapsto> n + 1),
                            last_failure_time :=
                              (last_failure_time tripped_failover)(''f'' \<mapsto> clock (test_world 60)),
                            circuit_state := (circuit_state tripped_failover)(''f'' \<mapsto> CB_OPEN)\<rparr>)
                         ''f'' e
                         (logging (Circuit_breaker_opened ''f'') (logging (Failure_in ''f'' e) v1)))"
      by blast
    with failing_apply [of "test_world 60"] c s(3,4) show ?thesis
      by (simp add: attempt_fallback_def logging_def)
  qed
  from reach h(1-4) reach' s(1,2) 1 2 3 4 show ?thesis by blast
qed

text \<open>
  C5. The wrapper of \<^verbatim>\<open>FailoverStrategy\<close> invokes a fallback once, never retries it and
  never wraps what it raises. A fallback invoked because the circuit is OPEN: the exception
  it raises reaches the caller as it is. A fallback invoked after the operation failed:
  if it raises an \<^verbatim>\<open>Exception\<close>, the wrapper logs it and raises the exception of the
  operation; an exception outside \<^verbatim>\<open>Exception\<close> reaches the caller as it is.
\<close>

theorem C5_fallback_failure:
  "(circuit_state s key = Some CB_OPEN
      \<and> clock v - (case last_failure_time s key of None \<Rightarrow> 0 | Some t' \<Rightarrow> t') < reset_timeout s
      \<and> fallback_handlers s key = Some fallback
      \<and> fallback (logging (Circuit_open_using_fallback key) v) = (Inl fe, v1)
    \<longrightarrow> wrapper s key op v = (Inl (Raised fe), s, v1))
   \<and> (s = failover_run (FailoverStrategy_init mf rt bs) evs
        \<and> \<not> (circuit_state s key = Some CB_OPEN
              \<and> clock v - (case last_failure_time s key of None \<Rightarrow> 0 | Some t' \<Rightarrow> t') < reset_timeout s)
        \<and> op v = (Inl e, v1) \<and> is_Exception e
        \<and> fallback_handlers s key = Some fallback
        \<and> fallback (failure_log s key (status_failures (get_circuit_status s key)) e v1) = (Inl fe, v3)
      \<longrightarrow> fst (wrapper s key op v) = Inl (Raised (if is_Exception fe then e else fe))
          \<and> snd (snd (wrapper s key op v)) =
              (if is_Exception fe then logging (Fallback_failed key fe) v3 else v3))"
proof (intro conjI impI)
  assume "circuit_state s key = Some CB_OPEN
      \<and> clock v - (case last_failure_time s key of None \<Rightarrow> 0 | Some t' \<Rightarrow> t') < reset_timeout s
      \<and> fallback_handlers s key = Some fallback
      \<and> fallback (logging (Circuit_open_using_fallback key) v) = (Inl fe, v1)"
  then show "wrapper s key op v = (Inl (Raised fe), s, v1)"
    by (simp add: wrapper_blocked circuit_still_open_def)
next
  assume a: "s = failover_run (FailoverStrategy_init mf rt bs) evs
        \<and> \<not> (circuit_state s key = Some CB_OPEN
              \<and> clock v - (case last_failure_time s key of None \<Rightarrow> 0 | Some t' \<Rightarrow> t') < reset_timeout s)
        \<and> op v = (Inl e, v1) \<and> is_Exception e
        \<and> fallback_handlers s key = Some fallback
        \<and> fallback (failure_log s key (status_failures (get_circuit_status s key)) e v1) = (Inl fe, v3)"
  then have "s = failover_run (FailoverStrategy_init mf rt bs) evs" by blast
  then have c: "failover_consistent s"
    by (simp add: failover_run_consistent failover_init_consistent)
  from a have nb: "\<not> (circuit_state s key = Some CB_OPEN
              \<and> clock v - (case last_failure_time s key of None \<Rightarrow> 0 | Some t' \<Rightarrow> t') < reset_timeout s)"
    and f: "op v = (Inl e, v1)" "is_Exception e"
    and fb: "fallback_handlers s key = Some fallback"
    and r: "fallback (failure_log s key (status_failures (get_circuit_status s key)) e v1) = (Inl fe, v3)"
    by blast+
  from wrapper_failure_with_fallback [of s key v op e v1 fallback fe v3, OF c nb f fb r]
  show "fst (wrapper s key op v) = Inl (Raised (if is_Exception fe then e else fe))"
    and "snd (snd (wrapper s key op v)) =
              (if is_Exception fe then logging (Fallback_failed key fe) v3 else v3)"
    by simp_all
qed

theorem C5_witness:
  "circuit_state (guarded\<lparr>circuit_state := [''f'' \<mapsto> CB_OPEN], failures := [''f'' \<mapsto> 3],
                     last_failure_time := [''f'' \<mapsto> 0]\<rparr>) ''f'' = Some CB_OPEN
   \<and> fallback_handlers guarded ''f'' = Some broken_fallback
   \<and> wrapper (guarded\<lparr>circuit_state := [''f'' \<mapsto> CB_OPEN], failures := [''f'' \<mapsto> 3],
                  last_failure_time := [''f'' \<mapsto> 0]\<rparr>) ''f'' primary_down quiet_world =
       (Inl (Raised (Exception ''fallback'')),
        guarded\<lparr>circuit_state := [''f'' \<mapsto> CB_OPEN], failures := [''f'' \<mapsto> 3],
                last_failure_time := [''f'' \<mapsto> 0]\<rparr>,
        quiet_world\<lparr>calls := 1, log := [Circuit_open_using_fallback ''f'']\<rparr>)
   \<and> guarded = failover_run (FailoverStrategy_init 3 60 ''exponential'')
                  [Register_fallback ''f'' broken_fallback]
   \<and> primary_down quiet_world = (Inl (Exception ''primary''), quiet_world)
   \<and> is_Exception (Exception ''primary'' :: string exc)
   \<and> fst (wrapper guarded ''f'' primary_down quiet_world) = Inl (Raised (Exception ''primary''))
   \<and> snd (snd (wrapper guarded ''f'' primary_down quiet_world)) =
       quiet_world\<lparr>calls := 1,
         log := [Failure_in ''f'' (Exception ''primary''),
                 Fallback_failed ''f'' (Exception ''fallback'')]\<rparr>"
proof -
  let ?o = "guarded\<lparr>circuit_state := [''f'' \<mapsto> CB_OPEN], failures := [''f'' \<mapsto> 3],
                     last_failure_time := [''f'' \<mapsto> 0]\<rparr>"
  let ?v1 = "quiet_world\<lparr>calls := 1, log := [Circuit_open_using_fallback ''f'']\<rparr>"
  let ?v3 = "quiet_world\<lparr>calls := 1, log := [Failure_in ''f'' (Exception ''primary'')]\<rparr>"
  let ?fe = "Exception ''fallback'' :: string exc"
  let ?e = "Exception ''primary'' :: string exc"
  have g: "fallback_handlers guarded ''f'' = Some broken_fallback"
    "circuit_state guarded ''f'' = None" "failures guarded ''f'' = None"
    "max_failures guarded = 3"
    by (simp_all add: guarded_eq FailoverStrategy_init_def)
  have a: "circuit_state ?o ''f'' = Some CB_OPEN
      \<and> clock quiet_world - (case last_failure_time ?o ''f'' of None \<Rightarrow> 0 | Some t' \<Rightarrow> t')
          < reset_timeout ?o
      \<and> fallback_handlers ?o ''f'' = Some broken_fallback
      \<and> broken_fallback (logging (Circuit_open_using_fallback ''f'') quiet_world) = (Inl ?fe, ?v1)"
    by (simp add: g) (simp add: guarded_eq FailoverStrategy_init_def quiet_world_def
          broken_fallback_def counted_def logging_def)
  have r: "guarded = failover_run (FailoverStrategy_init 3 60 ''exponential'')
                  [Register_fallback ''f'' broken_fallback]"
    by (simp add: guarded_def)
  have p: "primary_down quiet_world = (Inl ?e, quiet_world)"
    by (simp add: primary_down_def)
  have l: "failure_log guarded ''f'' (status_failures (get_circuit_status guarded ''f'')) ?e quiet_world
             = logging (Failure_in ''f'' ?e) quiet_world"
    by (simp add: failure_log_def get_circuit_status_def g)
  have b: "guarded = failover_run (FailoverStrategy_init 3 60 ''exponential'')
                  [Register_fallback ''f'' broken_fallback]
        \<and> \<not> (circuit_state guarded ''f'' = Some CB_OPEN
              \<and> clock quiet_world
                   - (case last_failure_time guarded ''f'' of None \<Rightarrow> 0 | Some t' \<Rightarrow> t')
                  < reset_timeout guarded)
        \<and> primary_down quiet_world = (Inl ?e, quiet_world) \<and> is_Exception ?e
        \<and> fallback_handlers guarded ''f'' = Some broken_fallback
        \<and> broken_fallback
             (failure_log guarded ''f'' (status_failures (get_circuit_status guarded ''f'')) ?e
                quiet_world)
           = (Inl ?fe, ?v3)"
    using r p g(1,2) unfolding l
    by (simp add: broken_fallback_def counted_def logging_def quiet_world_def
          del: failover_run.simps)
  note i1 = C5_fallback_failure
      [of ?o "''f''" quiet_world broken_fallback ?fe ?v1 primary_down
          3 60 "''exponential''" "[Register_fallback ''f'' broken_fallback]" ?e ?v3]
  note i2 = C5_fallback_failure
      [of guarded "''f''" quiet_world broken_fallback ?fe quiet_world primary_down
          3 60 "''exponential''" "[Register_fallback ''f'' broken_fallback]" ?e ?v3]
  from i1 [THEN conjunct1, THEN mp, OF a]
  have 1: "wrapper ?o ''f'' primary_down quiet_world = (Inl (Raised ?fe), ?o, ?v1)" .
  from i2 [THEN conjunct2, THEN mp, OF b]
  have 2: "fst (wrapper guarded ''f'' primary_down quiet_world) = Inl (Raised ?e)"
    "snd (snd (wrapper guarded ''f'' primary_down quiet_world)) =
       quiet_world\<lparr>calls := 1,
         log := [Failure_in ''f'' ?e, Fallback_failed ''f'' ?fe]\<rparr>"
    by (simp_all add: logging_def quiet_world_def)
  from a g(1) 1 r p 2 show ?thesis by simp
qed

text \<open>
  A fallback that raises, invoked after the operation failed on a closed circuit: the
  caller gets the exception of the operation, not the one of the fallback.
\<close>

theorem C5_counterexample:
  "fallback_handlers guarded ''f'' = Some broken_fallback
   \<and> fst (broken_fallback (logging (Failure_in ''f'' (Exception ''primary'')) quiet_world))
       = Inl (Exception ''fallback'')
   \<and> fst (wrapper guarded ''f'' primary_down quiet_world) = Inl (Raised (Exception ''primary''))
   \<and> fst (wrapper guarded ''f'' primary_down quiet_world) \<noteq> Inl (Raised (Exception ''fallback''))"
  by (simp add: guarded_call) (simp add: guarded_eq broken_fallback_def counted_def)

text \<open>
  C6. For every attempt from 1 on, \<^verbatim>\<open>RetryHandler._calculate_delay\<close> returns the delay of
  the spec: the formula of the strategy (the base delay; times the attempt; times 2 to
  the attempt minus 1; times 1.618 to the attempt), clamped to the maximal delay, plus a
  jitter term drawn by \<^verbatim>\<open>random.uniform\<close> between minus and plus the jitter fraction times
  the clamped delay, floored at 0. The jitter term lies in that interval whenever the
  random number lies in [0, 1). With a jitter fraction of 0 the result is the clamped
  delay floored at 0, which is the clamped delay itself for a base and a maximal delay
  that are not negative. The computation reads one random number and changes nothing else
  of the environment: no sleep, no log. (Floats are real numbers here.)
  \<^verbatim>\<open>FailoverStrategy._calculate_backoff\<close>, which the decorator never calls, computes
  something else: it has no base delay, no maximal delay and no jitter fraction. For
  \<^verbatim>\<open>'exponential'\<close> it returns 2 to the attempt, clamped to the reset timeout, plus a jitter
  term drawn between 0 and a tenth of that; for \<^verbatim>\<open>'linear'\<close> 5 times the attempt, clamped
  to the reset timeout; for every other strategy the reset timeout. It has no floor at 0,
  and it changes nothing of the environment but the random number it reads.
\<close>

theorem C6_backoff_delay:
  "1 \<le> attempt \<longrightarrow>
     fst (calculate_delay h attempt w) =
       max 0 (spec_delay (rh_backoff_strategy h) (rh_base_delay h) (rh_max_delay h) attempt
              + fst (uniform
                  (- (spec_delay (rh_backoff_strategy h) (rh_base_delay h) (rh_max_delay h) attempt
                      * rh_jitter h))
                  (spec_delay (rh_backoff_strategy h) (rh_base_delay h) (rh_max_delay h) attempt
                      * rh_jitter h) w))
     \<and> (0 \<le> spec_delay (rh_backoff_strategy h) (rh_base_delay h) (rh_max_delay h) attempt
            * rh_jitter h
          \<and> 0 \<le> random_values w (random_index w) \<and> random_values w (random_index w) < 1
        \<longrightarrow> - (spec_delay (rh_backoff_strategy h) (rh_base_delay h) (rh_max_delay h) attempt
                * rh_jitter h)
              \<le> fst (uniform
                  (- (spec_delay (rh_backoff_strategy h) (rh_base_delay h) (rh_max_delay h) attempt
                      * rh_jitter h))
                  (spec_delay (rh_backoff_strategy h) (rh_base_delay h) (rh_max_delay h) attempt
                      * rh_jitter h) w)
            \<and> fst (uniform
                  (- (spec_delay (rh_backoff_strategy h) (rh_base_delay h) (rh_max_delay h) attempt
                      * rh_jitter h))
                  (spec_delay (rh_backoff_strategy h) (rh_base_delay h) (rh_max_delay h) attempt
                      * rh_jitter h) w)
              \<le> spec_delay (rh_backoff_strategy h) (rh_base_delay h) (rh_max_delay h) attempt
                  * rh_jitter h)
     \<and> (rh_jitter h = 0
        \<longrightarrow> fst (calculate_delay h attempt w) =
              max 0 (spec_delay (rh_backoff_strategy h) (rh_base_delay h) (rh_max_delay h) attempt))
     \<and> (rh_jitter h = 0 \<and> 0 \<le> rh_base_delay h \<and> 0 \<le> rh_max_delay h
        \<longrightarrow> fst (calculate_delay h attempt w) =
              spec_delay (rh_backoff_strategy h) (rh_base_delay h) (rh_max_delay h) attempt)
     \<and> snd (calculate_delay h attempt w) = w\<lparr>random_index := Suc (random_index w)\<rparr>
     \<and> (backoff_strategy s = ''exponential''
        \<longrightarrow> calculate_backoff s attempt v =
              (min (reset_timeout s) (2 ^ nat attempt)
                 + fst (uniform 0 (1 / 10 * min (reset_timeout s) (2 ^ nat attempt)) v),
               v\<lparr>random_index := Suc (random_index v)\<rparr>)
            \<and> (0 \<le> min (reset_timeout s) (2 ^ nat attempt)
                 \<and> 0 \<le> random_values v (random_index v) \<and> random_values v (random_index v) < 1
               \<longrightarrow> 0 \<le> fst (uniform 0 (1 / 10 * min (reset_timeout s) (2 ^ nat attempt)) v)
                   \<and> fst (uniform 0 (1 / 10 * min (reset_timeout s) (2 ^ nat attempt)) v)
                       \<le> 1 / 10 * min (reset_timeout s) (2 ^ nat attempt)))
     \<and> (backoff_strategy s = ''linear''
        \<longrightarrow> calculate_backoff s attempt v = (min (reset_timeout s) (of_int (attempt * 5)), v))
     \<and> (backoff_strategy s \<noteq> ''exponential'' \<and> backoff_strategy s \<noteq> ''linear''
        \<longrightarrow> calculate_backoff s attempt v = (reset_timeout s, v))
     \<and> fst (calculate_delay h attempt w) =
         spec_backoff (rh_backoff_strategy h) (rh_base_delay h) (rh_max_delay h) (rh_jitter h)
           attempt (random_values w (random_index w))"
  using calculate_delay_spec [of attempt h w] calculate_backoff_spec [of attempt s v]
    calculate_delay_spec_backoff [of attempt h w]
  by blast

theorem C6_witness:
  "(1::int) \<le> 3
   \<and> fst (calculate_delay (RetryHandler_init 3 1 10 EXPONENTIAL (1/10) 5 30 None) 3 (test_world 0))
       = 36 / 10
   \<and> fst (uniform (- (4 * (1/10))) (4 * (1/10)) (test_world 0)) = - (4 / 10)
   \<and> snd (calculate_delay (RetryHandler_init 3 1 10 EXPONENTIAL (1/10) 5 30 None) 3 (test_world 0))
       = (test_world 0)\<lparr>random_index := 1\<rparr>
   \<and> (1::int) \<le> 2
   \<and> rh_jitter (RetryHandler_init 3 1 10 FIBONACCI 0 5 30 None :: unit RetryHandler) = 0
   \<and> fst (calculate_delay (RetryHandler_init 3 1 10 FIBONACCI 0 5 30 None) 2 (test_world 0))
       = 2617924 / 1000000
   \<and> backoff_strategy (FailoverStrategy_init 3 60 ''exponential'' :: (unit, nat) FailoverStrategy)
       = ''exponential''
   \<and> fst (uniform 0 (1 / 10 * 8) (test_world 0)) = 0
   \<and> calculate_backoff (FailoverStrategy_init 3 60 ''exponential'' :: (unit, nat) FailoverStrategy)
         3 (test_world 0)
       = (8, (test_world 0)\<lparr>random_index := 1\<rparr>)
   \<and> backoff_strategy (FailoverStrategy_init 3 60 ''linear'' :: (unit, nat) FailoverStrategy)
       = ''linear''
   \<and> calculate_backoff (FailoverStrategy_init 3 60 ''linear'' :: (unit, nat) FailoverStrategy)
         2 (test_world 0)
       = (10, test_world 0)
   \<and> backoff_strategy (FailoverStrategy_init 3 60 ''constant'' :: (unit, nat) FailoverStrategy)
       \<noteq> ''exponential''
   \<and> backoff_strategy (FailoverStrategy_init 3 60 ''constant'' :: (unit, nat) FailoverStrategy)
       \<noteq> ''linear''
   \<and> calculate_backoff (FailoverStrategy_init 3 60 ''constant'' :: (unit, nat) FailoverStrategy)
         2 (test_world 0)
       = (60, test_world 0)"
proof -
  let ?h = "RetryHandler_init 3 1 10 EXPONENTIAL (1/10) 5 30 None :: unit RetryHandler"
  let ?g = "RetryHandler_init 3 1 10 FIBONACCI 0 5 30 None :: unit RetryHandler"
  let ?e = "FailoverStrategy_init 3 60 ''exponential'' :: (unit, nat) FailoverStrategy"
  let ?l = "FailoverStrategy_init 3 60 ''linear'' :: (unit, nat) FailoverStrategy"
  let ?c = "FailoverStrategy_init 3 60 ''constant'' :: (unit, nat) FailoverStrategy"
  have h: "rh_backoff_strategy ?h = EXPONENTIAL" "rh_base_delay ?h = 1" "rh_max_delay ?h = 10"
    "rh_jitter ?h = 1/10"
    and g: "rh_backoff_strategy ?g = FIBONACCI" "rh_base_delay ?g = 1" "rh_max_delay ?g = 10"
    "rh_jitter ?g = 0"
    by (simp_all add: RetryHandler_init_def)
  have s: "backoff_strategy ?e = ''exponential''" "reset_timeout ?e = 60"
    "backoff_strategy ?l = ''linear''" "reset_timeout ?l = 60"
    "backoff_strategy ?c \<noteq> ''exponential''" "backoff_strategy ?c \<noteq> ''linear''"
    "reset_timeout ?c = 60"
    by (simp_all add: FailoverStrategy_init_def)
  have u: "fst (uniform (- (4 * (1/10))) (4 * (1/10)) (test_world 0)) = - (4 / 10)"
    "fst (uniform 0 (1 / 10 * 8) (test_world 0)) = 0"
    "random_index (test_world 0) = 0"
    by (simp_all add: uniform_def test_world_def)
  have a3: "(1::int) \<le> 3" and a2: "(1::int) \<le> 2" by simp_all
  note i3 = C6_backoff_delay [of 3 ?h "test_world 0" ?e "test_world 0", THEN mp, OF a3]
  note i2 = C6_backoff_delay [of 2 ?g "test_world 0" ?l "test_world 0", THEN mp, OF a2]
  note i2' = C6_backoff_delay [of 2 ?g "test_world 0" ?c "test_world 0", THEN mp, OF a2]
  from i3
  have 1: "fst (calculate_delay ?h 3 (test_world 0)) = 36 / 10"
    and 2: "snd (calculate_delay ?h 3 (test_world 0)) = (test_world 0)\<lparr>random_index := 1\<rparr>"
    using u(1) by (simp_all add: h spec_delay_examples test_world_def)
  from i2
  have 3: "fst (calculate_delay ?g 2 (test_world 0)) = 2617924 / 1000000"
    by (simp add: g spec_delay_examples)
  from i3 s(1)
  have "calculate_backoff ?e 3 (test_world 0) =
              (min (reset_timeout ?e) (2 ^ nat 3)
                 + fst (uniform 0 (1 / 10 * min (reset_timeout ?e) (2 ^ nat 3)) (test_world 0)),
               (test_world 0)\<lparr>random_index := Suc (random_index (test_world 0))\<rparr>)"
    by blast
  then have 4: "calculate_backoff ?e 3 (test_world 0) = (8, (test_world 0)\<lparr>random_index := 1\<rparr>)"
    using u(2,3) by (simp add: s(2))
  from i2 s(3)
  have "calculate_backoff ?l 2 (test_world 0) = (min (reset_timeout ?l) (of_int (2 * 5)), test_world 0)"
    by blast
  then have 5: "calculate_backoff ?l 2 (test_world 0) = (10, test_world 0)"
    by (simp add: s(4))
  from i2' s(5,6)
  have "calculate_backoff ?c 2 (test_world 0) = (reset_timeout ?c, test_world 0)"
    by blast
  then have 6: "calculate_backoff ?c 2 (test_world 0) = (60, test_world 0)"
    by (simp add: s(7))
  from a3 a2 1 2 3 u(1,2) g(4) s(1,3,5,6) 4 5 6 show ?thesis by blast
qed

text \<open>
  At the first attempt the formulas of the spec give the same delay for the exponential
  and the linear strategy, whatever the base delay, the maximal delay and the jitter
  fraction are. \<^verbatim>\<open>FailoverStrategy._calculate_backoff\<close> returns 2 for one and 5 for the
  other, with the same reset timeout and the same random number.
\<close>

theorem C6_counterexample:
  "fst (calculate_backoff (FailoverStrategy_init 3 60 ''exponential'' :: (unit, nat) FailoverStrategy)
          1 (test_world 0)) = 2
   \<and> fst (calculate_backoff (FailoverStrategy_init 3 60 ''linear'' :: (unit, nat) FailoverStrategy)
          1 (test_world 0)) = 5
   \<and> random_values (test_world 0) (random_index (test_world 0)) = 0
   \<and> \<not> (\<exists>base_delay max_delay jitter_fraction.
          spec_backoff EXPONENTIAL base_delay max_delay jitter_fraction 1 0 = 2
          \<and> spec_backoff LINEAR base_delay max_delay jitter_fraction 1 0 = 5)"
proof -
  have "\<not> (\<exists>b m j. spec_backoff EXPONENTIAL b m j 1 0 = 2 \<and> spec_backoff LINEAR b m j 1 0 = 5)"
    by (simp add: spec_backoff_first_attempt)
  moreover have "random_values (test_world 0) (random_index (test_world 0)) = 0"
    by (simp add: test_world_def)
  ultimately show ?thesis using failover_backoff_examples(1,2) by blast
qed

text \<open>
  C7. An exception that is not retryable ends the call on the attempt that raised it and
  reaches the caller as it is; the attempt leaves the circuit as it found it: state,
  failure count and time of last failure are unchanged, the exception is not counted and
  nothing is retried. For \<^verbatim>\<open>RetryHandler.retry\<close> this holds at every attempt of the loop, so
  a call on a circuit that is not OPEN whose first attempt raises it returns the handler
  unchanged. The wrapper of \<^verbatim>\<open>FailoverStrategy\<close> catches \<^verbatim>\<open>Exception\<close>: an exception
  outside it leaves the failure count and the time of last failure of every key
  unchanged, and the state too. A circuit found OPEN after its reset timeout has been
  moved to HALF_OPEN by the call before the attempt, as in the algorithm of the spec; the
  exception leaves it HALF_OPEN.
\<close>

theorem C7_not_retryable_is_no_failure:
  "(func w = (Inl e, w1) \<and> \<not> rh_retry_on h e
      \<longrightarrow> retry_loop h func (attempt # rest) w = (Inl (Raised e), h, w1)
          \<and> (1 \<le> rh_max_retries h \<and> rh_circuit_state h \<noteq> OPEN
              \<longrightarrow> retry h func w = (Inl (Raised e), h, w1))
          \<and> (1 \<le> rh_max_retries h \<and> rh_circuit_state h = OPEN \<and> rh_last_failure_time h = Some t
                \<and> clock w - t \<ge> rh_circuit_reset_timeout h
              \<longrightarrow> retry h func w = (Inl (Raised e), h\<lparr>rh_circuit_state := HALF_OPEN\<rparr>, w1)))
   \<and> (s = failover_run (FailoverStrategy_init mf rt bs) evs
        \<and> op v = (Inl x, v1) \<and> \<not> is_Exception x
        \<and> \<not> (circuit_state s key = Some CB_OPEN
              \<and> clock v - (case last_failure_time s key of None \<Rightarrow> 0 | Some t' \<Rightarrow> t') < reset_timeout s)
      \<longrightarrow> fst (wrapper s key op v) = Inl (Raised x)
          \<and> snd (snd (wrapper s key op v)) = v1
          \<and> status_failures (get_circuit_status (fst (snd (wrapper s key op v))) k)
              = status_failures (get_circuit_status s k)
          \<and> status_last_failure_time (get_circuit_status (fst (snd (wrapper s key op v))) k)
              = status_last_failure_time (get_circuit_status s k)
          \<and> status_state (get_circuit_status (fst (snd (wrapper s key op v))) k)
              = (if k = key \<and> circuit_state s key = Some CB_OPEN then CB_HALF_OPEN
                 else status_state (get_circuit_status s k)))"
proof (intro conjI impI)
  assume a: "func w = (Inl e, w1) \<and> \<not> rh_retry_on h e"
  then show l: "retry_loop h func (attempt # rest) w = (Inl (Raised e), h, w1)"
    by (simp add: retry_loop_not_retryable)
  {
    assume b: "1 \<le> rh_max_retries h \<and> rh_circuit_state h \<noteq> OPEN"
    then have "retry h func w = retry_loop h func (1 # [2..rh_max_retries h]) w"
      by (simp add: retry_not_open upto_from_1 del: retry_loop.simps)
    with a show "retry h func w = (Inl (Raised e), h, w1)"
      by (simp add: retry_loop_not_retryable del: retry_loop.simps)
  }
  {
    assume b: "1 \<le> rh_max_retries h \<and> rh_circuit_state h = OPEN \<and> rh_last_failure_time h = Some t
                \<and> clock w - t \<ge> rh_circuit_reset_timeout h"
    then have "retry h func w =
        retry_loop (h\<lparr>rh_circuit_state := HALF_OPEN\<rparr>) func (1 # [2..rh_max_retries h]) w"
      by (simp add: retry_timeout_passed upto_from_1 del: retry_loop.simps)
    with a show "retry h func w = (Inl (Raised e), h\<lparr>rh_circuit_state := HALF_OPEN\<rparr>, w1)"
      by (simp add: retry_loop_not_retryable del: retry_loop.simps)
  }
next
  assume a: "s = failover_run (FailoverStrategy_init mf rt bs) evs
        \<and> op v = (Inl x, v1) \<and> \<not> is_Exception x
        \<and> \<not> (circuit_state s key = Some CB_OPEN
              \<and> clock v - (case last_failure_time s key of None \<Rightarrow> 0 | Some t' \<Rightarrow> t') < reset_timeout s)"
  then have w: "wrapper s key op v =
      (Inl (Raised x), move_to_half_open (initialize_state s key) key, v1)"
    using wrapper_passes_BaseException [of op v x v1 s key] by blast
  from a have "s = failover_run (FailoverStrategy_init mf rt bs) evs" by blast
  then have c: "failover_consistent s"
    by (simp add: failover_run_consistent failover_init_consistent)
  show "fst (wrapper s key op v) = Inl (Raised x)"
    and "snd (snd (wrapper s key op v)) = v1"
    and "status_failures (get_circuit_status (fst (snd (wrapper s key op v))) k)
              = status_failures (get_circuit_status s k)"
    and "status_last_failure_time (get_circuit_status (fst (snd (wrapper s key op v))) k)
              = status_last_failure_time (get_circuit_status s k)"
    and "status_state (get_circuit_status (fst (snd (wrapper s key op v))) k)
              = (if k = key \<and> circuit_state s key = Some CB_OPEN then CB_HALF_OPEN
                 else status_state (get_circuit_status s k))"
    unfolding w by (simp_all only: fst_conv snd_conv prepared_status [OF c])
qed

theorem C7_witness:
  "interrupted (test_world 0) = (Inl (BaseException ()), (test_world 0)\<lparr>calls := 1\<rparr>)
   \<and> \<not> rh_retry_on (patient_handler 3 5) (BaseException ())
   \<and> 1 \<le> rh_max_retries (patient_handler 3 5) \<and> rh_circuit_state (patient_handler 3 5) \<noteq> OPEN
   \<and> retry (patient_handler 3 5) interrupted (test_world 0) =
       (Inl (Raised (BaseException ())), patient_handler 3 5, (test_world 0)\<lparr>calls := 1\<rparr>)
   \<and> interrupted (test_world 30) = (Inl (BaseException ()), (test_world 30)\<lparr>calls := 1\<rparr>)
   \<and> \<not> rh_retry_on tripped_handler (BaseException ())
   \<and> 1 \<le> rh_max_retries tripped_handler \<and> rh_circuit_state tripped_handler = OPEN
   \<and> rh_last_failure_time tripped_handler = Some 0
   \<and> clock (test_world 30) - 0 \<ge> rh_circuit_reset_timeout tripped_handler
   \<and> retry tripped_handler interrupted (test_world 30) =
       (Inl (Raised (BaseException ())), tripped_handler\<lparr>rh_circuit_state := HALF_OPEN\<rparr>,
        (test_world 30)\<lparr>calls := 1\<rparr>)
   \<and> rh_failure_count (tripped_handler\<lparr>rh_circuit_state := HALF_OPEN\<rparr>)
       = rh_failure_count tripped_handler
   \<and> \<not> is_Exception (BaseException ())
   \<and> fst (wrapper (failover_run (FailoverStrategy_init 3 60 ''exponential'') []) ''f'' interrupted
             (test_world 0))
       = Inl (Raised (BaseException ()))
   \<and> get_circuit_status
        (fst (snd (wrapper (failover_run (FailoverStrategy_init 3 60 ''exponential'') []) ''f''
                     interrupted (test_world 0)))) ''f''
       = \<lparr>status_state = CB_CLOSED, status_failures = 0, status_last_failure_time = None\<rparr>"
proof -
  let ?h = "patient_handler 3 5"
  let ?s = "failover_run (FailoverStrategy_init 3 60 ''exponential'') [] :: (unit, nat) FailoverStrategy"
  let ?e = "BaseException ()"
  have a: "interrupted (test_world 0) = (Inl ?e, (test_world 0)\<lparr>calls := 1\<rparr>)"
    "\<not> rh_retry_on ?h ?e" "1 \<le> rh_max_retries ?h" "rh_circuit_state ?h \<noteq> OPEN"
    by (simp_all add: interrupted_apply patient_handler_fields test_world_def)
  have b: "interrupted (test_world 30) = (Inl ?e, (test_world 30)\<lparr>calls := 1\<rparr>)"
    "\<not> rh_retry_on tripped_handler ?e" "1 \<le> rh_max_retries tripped_handler"
    "rh_circuit_state tripped_handler = OPEN" "rh_last_failure_time tripped_handler = Some 0"
    "clock (test_world 30) - 0 \<ge> rh_circuit_reset_timeout tripped_handler"
    by (simp_all add: interrupted_apply tripped_handler_eq RetryHandler_init_def test_world_def)
  have c: "?s = failover_run (FailoverStrategy_init 3 60 ''exponential'') []"
    "\<not> is_Exception ?e"
    "\<not> (circuit_state ?s ''f'' = Some CB_OPEN
        \<and> clock (test_world 0) - (case last_failure_time ?s ''f'' of None \<Rightarrow> 0 | Some t' \<Rightarrow> t')
            < reset_timeout ?s)"
    by (simp_all add: FailoverStrategy_init_def)
  note i1 = C7_not_retryable_is_no_failure
      [of interrupted "test_world 0" ?e "(test_world 0)\<lparr>calls := 1\<rparr>" ?h 1 "[2, 3]" 0
          ?s 3 60 "''exponential''" "[]" interrupted "test_world 0" ?e
          "(test_world 0)\<lparr>calls := 1\<rparr>" "''f''" "''f''"]
  note i2 = C7_not_retryable_is_no_failure
      [of interrupted "test_world 30" ?e "(test_world 30)\<lparr>calls := 1\<rparr>" tripped_handler 1 "[]" 0
          ?s 3 60 "''exponential''" "[]" interrupted "test_world 0" ?e
          "(test_world 0)\<lparr>calls := 1\<rparr>" "''f''" "''f''"]
  from i1 a have 1: "retry ?h interrupted (test_world 0) =
       (Inl (Raised ?e), ?h, (test_world 0)\<lparr>calls := 1\<rparr>)"
    by blast
  from i2 b have 2: "retry tripped_handler interrupted (test_world 30) =
       (Inl (Raised ?e), tripped_handler\<lparr>rh_circuit_state := HALF_OPEN\<rparr>,
        (test_world 30)\<lparr>calls := 1\<rparr>)"
    by blast
  from i1 a(1) c
  have 3: "fst (wrapper ?s ''f'' interrupted (test_world 0)) = Inl (Raised ?e)"
    and 4: "status_failures (get_circuit_status (fst (snd (wrapper ?s ''f'' interrupted (test_world 0)))) ''f'')
              = status_failures (get_circuit_status ?s ''f'')"
       "status_last_failure_time
          (get_circuit_status (fst (snd (wrapper ?s ''f'' interrupted (test_world 0)))) ''f'')
              = status_last_failure_time (get_circuit_status ?s ''f'')"
       "status_state (get_circuit_status (fst (snd (wrapper ?s ''f'' interrupted (test_world 0)))) ''f'')
              = (if ''f'' = ''f'' \<and> circuit_state ?s ''f'' = Some CB_OPEN then CB_HALF_OPEN
                 else status_state (get_circuit_status ?s ''f''))"
    by blast+
  have 5: "get_circuit_status ?s ''f''
             = \<lparr>status_state = CB_CLOSED, status_failures = 0, status_last_failure_time = None\<rparr>"
    "circuit_state ?s ''f'' = None"
    by (simp_all add: get_circuit_status_def FailoverStrategy_init_def)
  from 4 5 have 6: "get_circuit_status (fst (snd (wrapper ?s ''f'' interrupted (test_world 0)))) ''f''
       = \<lparr>status_state = CB_CLOSED, status_failures = 0, status_last_failure_time = None\<rparr>"
    by (simp add: circuit_status.equality del: failover_run.simps)
  have 7: "rh_failure_count (tripped_handler\<lparr>rh_circuit_state := HALF_OPEN\<rparr>)
       = rh_failure_count tripped_handler"
    by simp
  from a b c(2) 1 2 3 6 7 show ?thesis by blast
qed

text \<open>
  C8. With \<^verbatim>\<open>max_retries = 3\<close>, a failure threshold of 5 and an operation that always
  raises a retryable exception, a call of \<^verbatim>\<open>retry\<close> on a new handler invokes the operation
  three times, raises \<^verbatim>\<open>RetryHandlerError\<close> with the message \<^verbatim>\<open>Failed after 3 attempts\<close>
  and severity ERROR, and leaves the circuit CLOSED with three failures counted. The
  context of the error holds the last exception, as \<^verbatim>\<open>str(e)\<close> under \<^verbatim>\<open>'last_error'\<close>, and
  nothing else: the number of attempts is in the message, not in the context.
\<close>

theorem C8_exhausted_after_three_attempts:
  "h0 = RetryHandler_init 3 bd md bs j 5 rt ro \<and> always_raises (rh_retry_on h0) func
   \<longrightarrow> (\<exists>e1 w1 e2 w2 e3 w3.
           func w = (Inl e1, w1)
           \<and> func (backoff_wait (h0\<lparr>rh_failure_count := 1\<rparr>) 1 e1 w1) = (Inl e2, w2)
           \<and> func (backoff_wait (h0\<lparr>rh_failure_count := 2\<rparr>) 2 e2 w2) = (Inl e3, w3)
           \<and> retry h0 func w =
               (Inl (RetryHandlerError ''Failed after 3 attempts'' ERROR
                       [(''last_error'', Str e3)]),
                h0\<lparr>rh_failure_count := 3\<rparr>, w3)
           \<and> rh_circuit_state (h0\<lparr>rh_failure_count := 3\<rparr>) = CLOSED
           \<and> (\<forall>f. func = counted f \<longrightarrow> calls w3 = calls w + 3))"
  using exhaust_within_one_call [of h0 bd md bs j rt ro func w] by blast

theorem C8_witness:
  "patient_handler 3 5 = RetryHandler_init 3 1 60 CONSTANT 0 5 30 None
   \<and> always_raises (rh_retry_on (patient_handler 3 5)) failing
   \<and> err_message (projl (fst (retry (patient_handler 3 5) failing (test_world 0))))
       = ''Failed after 3 attempts''
   \<and> err_context (projl (fst (retry (patient_handler 3 5) failing (test_world 0))))
       = [(''last_error'', Str (Exception ()))]
   \<and> rh_circuit_state (fst (snd (retry (patient_handler 3 5) failing (test_world 0)))) = CLOSED
   \<and> rh_failure_count (fst (snd (retry (patient_handler 3 5) failing (test_world 0)))) = 3
   \<and> calls (snd (snd (retry (patient_handler 3 5) failing (test_world 0)))) = 3"
proof -
  let ?h = "patient_handler 3 5"
  have p: "?h = RetryHandler_init 3 1 60 CONSTANT 0 5 30 None
      \<and> always_raises (rh_retry_on ?h) failing"
    by (simp add: patient_handler_fields failing_always_raises) (simp add: patient_handler_def)
  from C8_exhausted_after_three_attempts
         [of ?h 1 60 CONSTANT 0 30 None failing "test_world 0", THEN mp, OF p]
  obtain e1 w1 e2 w2 e3 w3 where
    a: "failing (test_world 0) = (Inl e1, w1)"
       "failing (backoff_wait (?h\<lparr>rh_failure_count := 1\<rparr>) 1 e1 w1) = (Inl e2, w2)"
       "failing (backoff_wait (?h\<lparr>rh_failure_count := 2\<rparr>) 2 e2 w2) = (Inl e3, w3)"
    and b: "retry ?h failing (test_world 0) =
               (Inl (RetryHandlerError ''Failed after 3 attempts'' ERROR
                       [(''last_error'', Str e3)]),
                ?h\<lparr>rh_failure_count := 3\<rparr>, w3)"
    and c: "\<forall>f. failing = counted f \<longrightarrow> calls w3 = calls (test_world 0) + 3"
    by blast
  from a(3) have e: "e3 = Exception ()" by (simp add: failing_apply)
  from c [rule_format, of "\<lambda>w. (Inl (Exception ()), w)"] have n: "calls w3 = 3"
    by (simp add: failing_def test_world_def)
  from b e have r: "retry ?h failing (test_world 0) =
               (Inl (RetryHandlerError ''Failed after 3 attempts'' ERROR
                       [(''last_error'', Str (Exception ()))]),
                ?h\<lparr>rh_failure_count := 3\<rparr>, w3)"
    by simp
  have "err_message (projl (fst (retry ?h failing (test_world 0)))) = ''Failed after 3 attempts''"
    "err_context (projl (fst (retry ?h failing (test_world 0))))
       = [(''last_error'', Str (Exception ()))]"
    "rh_circuit_state (fst (snd (retry ?h failing (test_world 0)))) = CLOSED"
    "rh_failure_count (fst (snd (retry ?h failing (test_world 0)))) = 3"
    "calls (snd (snd (retry ?h failing (test_world 0)))) = 3"
    unfolding r using n by (simp_all add: patient_handler_fields)
  with p show ?thesis by blast
qed

text \<open>
  The context of the error of C8 has the one key \<^verbatim>\<open>'last_error'\<close>; it has no entry for
  the number of attempts.
\<close>

theorem C8_counterexample:
  "isl (fst (retry (patient_handler 3 5) failing (test_world 0)))
   \<and> map fst (err_context (projl (fst (retry (patient_handler 3 5) failing (test_world 0)))))
       = [''last_error'']
   \<and> map_of (err_context (projl (fst (retry (patient_handler 3 5) failing (test_world 0)))))
        ''attempts'' = None"
  by (simp add: exhausted_example)

text \<open>
  C9. In every state that a \<^verbatim>\<open>RetryHandler\<close> reaches from its constructor by calls of
  \<^verbatim>\<open>retry\<close> (any operations, succeeding or failing, in any environments), and in every
  state that a \<^verbatim>\<open>FailoverStrategy\<close> reaches by calls of decorated functions,
  registrations of fallbacks and resets, for every key: an OPEN circuit has a time of last
  failure, and its failure count is at least the failure threshold.
\<close>

theorem C9_open_circuit_has_failure_time_and_count:
  "(rh_circuit_state (retry_calls (RetryHandler_init mr bd md bs j ft rt ro) cs) = OPEN
      \<longrightarrow> rh_last_failure_time (retry_calls (RetryHandler_init mr bd md bs j ft rt ro) cs) \<noteq> None
          \<and> rh_failure_count (retry_calls (RetryHandler_init mr bd md bs j ft rt ro) cs) \<ge> ft)
   \<and> (status_state (get_circuit_status (failover_run (FailoverStrategy_init mf rt' bs') evs) key)
         = CB_OPEN
      \<longrightarrow> status_last_failure_time
            (get_circuit_status (failover_run (FailoverStrategy_init mf rt' bs') evs) key) \<noteq> None
          \<and> status_failures
              (get_circuit_status (failover_run (FailoverStrategy_init mf rt' bs') evs) key) \<ge> mf)"
proof (intro conjI impI)
  let ?h = "retry_calls (RetryHandler_init mr bd md bs j ft rt ro) cs"
  assume op: "rh_circuit_state ?h = OPEN"
  have "circuit_consistent ?h"
    by (rule retry_calls_consistent) (rule init_consistent)
  moreover have "rh_circuit_failure_threshold ?h = ft"
    by (simp add: retry_calls_threshold RetryHandler_init_def)
  ultimately show "rh_last_failure_time ?h \<noteq> None" and "rh_failure_count ?h \<ge> ft"
    using op by (simp_all add: circuit_consistent_def)
next
  let ?s = "failover_run (FailoverStrategy_init mf rt' bs') evs"
  assume op: "status_state (get_circuit_status ?s key) = CB_OPEN"
  have c: "failover_consistent ?s"
    by (rule failover_run_consistent) (rule failover_init_consistent)
  have m: "max_failures ?s = mf"
    by (simp add: failover_run_max_failures FailoverStrategy_init_def)
  from failover_consistent_status [OF c op] m
  show "status_last_failure_time (get_circuit_status ?s key) \<noteq> None"
    and "status_failures (get_circuit_status ?s key) \<ge> mf" by simp_all
qed

theorem C9_witness:
  "rh_circuit_state tripped_handler = OPEN
   \<and> rh_last_failure_time tripped_handler = Some 0
   \<and> rh_failure_count tripped_handler = 1
   \<and> rh_circuit_failure_threshold tripped_handler = 1
   \<and> status_state (get_circuit_status tripped_failover ''f'') = CB_OPEN
   \<and> status_last_failure_time (get_circuit_status tripped_failover ''f'') = Some 0
   \<and> status_failures (get_circuit_status tripped_failover ''f'') = 1
   \<and> max_failures tripped_failover = 1
   \<and> rh_last_failure_time tripped_handler \<noteq> None \<and> rh_failure_count tripped_handler \<ge> 1
   \<and> status_last_failure_time (get_circuit_status tripped_failover ''f'') \<noteq> None
   \<and> status_failures (get_circuit_status tripped_failover ''f'') \<ge> 1"
proof -
  have h: "tripped_handler =
      retry_calls (RetryHandler_init 1 1 60 CONSTANT 0 1 30 None) [(failing, test_world 0)]"
    by (simp add: tripped_handler_def)
  have e: "rh_circuit_state tripped_handler = OPEN"
    "rh_last_failure_time tripped_handler = Some 0"
    "rh_failure_count tripped_handler = 1"
    "rh_circuit_failure_threshold tripped_handler = 1"
    "status_state (get_circuit_status tripped_failover ''f'') = CB_OPEN"
    "status_last_failure_time (get_circuit_status tripped_failover ''f'') = Some 0"
    "status_failures (get_circuit_status tripped_failover ''f'') = 1"
    "max_failures tripped_failover = 1"
    by (simp_all add: tripped_handler_eq tripped_failover_eq RetryHandler_init_def
          FailoverStrategy_init_def get_circuit_status_def)
  note C9_open_circuit_has_failure_time_and_count
         [of 1 1 60 CONSTANT 0 1 30 None "[(failing, test_world 0)]"
             1 60 "''exponential''" "[Call ''f'' failing (test_world 0)]" "''f''",
          folded h tripped_failover_def]
  with e(1) e(5)
  have "rh_last_failure_time tripped_handler \<noteq> None \<and> rh_failure_count tripped_handler \<ge> 1
        \<and> status_last_failure_time (get_circuit_status tripped_failover ''f'') \<noteq> None
        \<and> status_failures (get_circuit_status tripped_failover ''f'') \<ge> 1"
    by blast
  with e show ?thesis by blast
qed

text \<open>
  C10. With \<^verbatim>\<open>max_retries\<close> below 1 and a circuit that is not OPEN,
  \<^verbatim>\<open>RetryHandler.retry\<close> returns \<^verbatim>\<open>None\<close>: it raises nothing, it does not invoke the
  operation (the environment and the handler are what they were, whatever the operation
  is). Neither the constructor nor the call rejects such a \<^verbatim>\<open>max_retries\<close>.
\<close>

theorem C10_retry_returns_None_without_attempts:
  assumes "rh_max_retries h < 1" and "rh_circuit_state h \<noteq> OPEN"
  shows "retry h func w = (Inr None, h, w)"
  using assms by (simp add: retry_def)

theorem C10_witness:
  "rh_max_retries (RetryHandler_init 0 1 60 EXPONENTIAL (1/10) 5 30 None) < 1
   \<and> rh_circuit_state (RetryHandler_init 0 1 60 EXPONENTIAL (1/10) 5 30 None) \<noteq> OPEN
   \<and> retry (RetryHandler_init 0 1 60 EXPONENTIAL (1/10) 5 30 None)
        (counted (\<lambda>w. (Inr (7::nat), w)))
        \<lparr>clock = 0, random_values = (\<lambda>_. 0), random_index = 0, log = [], calls = 0\<rparr>
      = (Inr None, RetryHandler_init 0 1 60 EXPONENTIAL (1/10) 5 30 None,
         \<lparr>clock = 0, random_values = (\<lambda>_. 0), random_index = 0, log = [], calls = 0\<rparr>)"
  using C10_retry_returns_None_without_attempts
          [of "RetryHandler_init 0 1 60 EXPONENTIAL (1/10) 5 30 None"
              "counted (\<lambda>w. (Inr (7::nat), w))"
              "\<lparr>clock = 0, random_values = (\<lambda>_. 0), random_index = 0, log = [], calls = 0\<rparr>"]
  by (simp add: RetryHandler_init_def)

end
